theory Spec2Isabelle
  imports Main
begin

section \<open>Data model (models/Issue.js, models/User.js, models/Notification.js)\<close>

text \<open>
  Mongo ObjectIds are compared in the source through \<open>toString()\<close>, so an id is its
  string. Dates are millisecond clock readings. Statuses, roles, departments and
  categories are strings, as in the source; the enumerations of the schemas are lists.
\<close>

type_synonym oid = string

text \<open>
  The \<open>metadata\<close> of a timeline entry is a Mixed object; these are the shapes the source
  writes: \<open>{}\<close> (the default), \<open>{ oldStatus, newStatus, notes }\<close> (updateStatus),
  \<open>{ assignedUser, department }\<close> (assignIssue), \<open>{ updatedFields }\<close> (PUT /:id).
\<close>

datatype metadata =
    MetaEmpty
  | MetaStatus string string string
  | MetaAssign "oid option" string
  | MetaUpdated "string list"

record timeline_entry =
  action :: string
  description :: string
  performedBy :: oid
  timestamp :: int
  metadata :: metadata

record upvote =
  upvote_user :: oid
  upvote_timestamp :: int

record assignment =
  assigned_user :: "oid option"
  assigned_department :: string
  assignedAt :: int

record issue =
  issue_id :: oid
  title :: string
  category :: string
  priority :: string
  status :: string
  reportedBy :: oid
  assignedTo :: "assignment option"
  timeline :: "timeline_entry list"
  estimatedResolutionTime :: "int option"
  actualResolutionTime :: "int option"
  upvotes :: "upvote list"

subsection \<open>Issue methods\<close>

text \<open>
  \<open>addTimelineEntry\<close> (Issue.js 188-195): \<open>this.timeline.push({...})\<close>; the entry's
  \<open>timestamp\<close> is the schema default \<open>Date.now\<close>, the clock reading \<open>now\<close>.
\<close>

definition addTimelineEntry ::
  "int \<Rightarrow> string \<Rightarrow> string \<Rightarrow> oid \<Rightarrow> metadata \<Rightarrow> issue \<Rightarrow> issue" where
  "addTimelineEntry now act descr by meta i =
     i\<lparr>timeline := timeline i @
        [\<lparr>action = act, description = descr, performedBy = by,
          timestamp = now, metadata = meta\<rparr>]\<rparr>"

text \<open>
  \<open>updateStatus\<close> (Issue.js 198-212). \<open>notes ? ': ' + notes : ''\<close> tests the string for
  being non-empty. \<open>new Date()\<close> is the same clock reading \<open>now\<close>.
\<close>

definition status_description :: "string \<Rightarrow> string \<Rightarrow> string \<Rightarrow> string" where
  "status_description oldStatus newStatus notes =
     ''Status changed from '' @ oldStatus @ '' to '' @ newStatus @
       (if notes \<noteq> [] then '': '' @ notes else [])"

definition updateStatus :: "int \<Rightarrow> string \<Rightarrow> oid \<Rightarrow> string \<Rightarrow> issue \<Rightarrow> issue" where
  "updateStatus now newStatus by notes i =
     (let oldStatus = status i;
          i1 = i\<lparr>status := newStatus\<rparr>;
          i2 = addTimelineEntry now newStatus
                 (status_description oldStatus newStatus notes) by
                 (MetaStatus oldStatus newStatus notes) i1
      in if newStatus = ''resolved'' then i2\<lparr>actualResolutionTime := Some now\<rparr> else i2)"

text \<open>\<open>assignIssue\<close> (Issue.js 215-228).\<close>

definition assignIssue :: "int \<Rightarrow> oid option \<Rightarrow> string \<Rightarrow> oid \<Rightarrow> issue \<Rightarrow> issue" where
  "assignIssue now assignedUser dept by i =
     addTimelineEntry now ''assigned''
       (''Issue assigned to '' @ dept @ '' department'') by
       (MetaAssign assignedUser dept)
       (i\<lparr>assignedTo := Some \<lparr>assigned_user = assignedUser,
                               assigned_department = dept, assignedAt = now\<rparr>\<rparr>)"

subsection \<open>Sequences of operations on one issue document\<close>

text \<open>
  Every place of the source that writes the timeline: \<open>updateStatus\<close>, \<open>assignIssue\<close>,
  and the two direct calls of \<open>addTimelineEntry\<close> in routes/issues.js (325: 'created',
  with the default metadata; 445: 'updated', with the updated field names).
\<close>

datatype issue_op =
    Transition int string oid string
  | Assign int "oid option" string oid
  | Created int oid
  | Updated int oid "string list"

fun apply_op :: "issue_op \<Rightarrow> issue \<Rightarrow> issue" where
  "apply_op (Transition now newStatus by notes) i = updateStatus now newStatus by notes i"
| "apply_op (Assign now assignedUser dept by) i = assignIssue now assignedUser dept by i"
| "apply_op (Created now by) i =
     addTimelineEntry now ''created'' ''Issue reported by citizen'' by MetaEmpty i"
| "apply_op (Updated now by updatedFields) i =
     addTimelineEntry now ''updated'' ''Issue details updated'' by (MetaUpdated updatedFields) i"

fun apply_ops :: "issue_op list \<Rightarrow> issue \<Rightarrow> issue" where
  "apply_ops [] i = i"
| "apply_ops (x # xs) i = apply_ops xs (apply_op x i)"

text \<open>The transitions a sequence applies, each with the status it found: (old, new, notes).\<close>

fun applied_transitions :: "issue_op list \<Rightarrow> issue \<Rightarrow> (string \<times> string \<times> string) list" where
  "applied_transitions [] i = []"
| "applied_transitions (x # xs) i =
     (case x of Transition now newStatus by notes \<Rightarrow> [(status i, newStatus, notes)]
              | _ \<Rightarrow> []) @ applied_transitions xs (apply_op x i)"

text \<open>The transitions a timeline records: its entries with status metadata, in order.\<close>

fun recorded_transitions :: "timeline_entry list \<Rightarrow> (string \<times> string \<times> string) list" where
  "recorded_transitions [] = []"
| "recorded_transitions (e # es) =
     (case metadata e of MetaStatus old new notes \<Rightarrow> [(old, new, notes)] | _ \<Rightarrow> [])
       @ recorded_transitions es"

section \<open>Users, notifications, sockets and the server state\<close>

record user =
  user_id :: oid
  firstName :: string
  lastName :: string
  role :: string
  department :: string
  isActive :: bool
  contributionScore :: int

text \<open>
  The object given to \<open>Notification.createNotification\<close> and to
  \<open>broadcastNotification\<close>. The latter also reads a \<open>department\<close> property.
\<close>

record notification =
  recipient :: "oid option"
  sender :: "oid option"
  ntype :: string
  ntitle :: string
  nmessage :: string
  relatedIssue :: "oid option"
  npriority :: string
  actionUrl :: "string option"
  actionText :: "string option"
  ndepartment :: "string option"

datatype payload = PNotification notification | PText string

text \<open>
  A connected socket of utils/socket.js: its id, the \<open>userId\<close> and \<open>user\<close> the
  authentication middleware sets, the rooms it has joined, \<open>connectedAt\<close> (read by
  getConnectedUsers, written nowhere) and the events delivered to it so far.
\<close>

record socket =
  sock_id :: string
  sock_userId :: "string option"
  sock_user :: "user option"
  rooms :: "string list"
  connectedAt :: "int option"
  received :: "(string \<times> payload) list"

text \<open>
  The state the handlers work on: the Issue, User and Notification collections, and the
  module-level \<open>io\<close> of utils/socket.js (\<open>None\<close> is \<open>null\<close>: initializeSocket has not
  run; otherwise the sockets of \<open>io.sockets.sockets\<close>).
\<close>

record state =
  issues :: "issue list"
  users :: "user list"
  notifications :: "notification list"
  io :: "socket list option"

datatype js_error = CastError | ValidationError | PersistError | TypeError | ReferenceError

record res =
  res_code :: nat
  res_message :: string
  res_upvoteCount :: "nat option"
  res_isUpvoted :: "bool option"

definition respond :: "nat \<Rightarrow> string \<Rightarrow> res" where
  "respond c m = \<lparr>res_code = c, res_message = m, res_upvoteCount = None, res_isUpvoted = None\<rparr>"

section \<open>Realtime broadcaster (utils/socket.js)\<close>

text \<open>\<open>io.to(room).emit(event, data)\<close>: every socket in the room receives the event.\<close>

definition io_to_emit :: "string \<Rightarrow> string \<Rightarrow> payload \<Rightarrow> socket list \<Rightarrow> socket list" where
  "io_to_emit room event dat srv =
     map (\<lambda>s. if room \<in> set (rooms s) then s\<lparr>received := received s @ [(event, dat)]\<rparr> else s) srv"

text \<open>\<open>io.emit(event, data)\<close>: every connected socket receives the event.\<close>

definition io_emit :: "string \<Rightarrow> payload \<Rightarrow> socket list \<Rightarrow> socket list" where
  "io_emit event dat srv = map (\<lambda>s. s\<lparr>received := received s @ [(event, dat)]\<rparr>) srv"

text \<open>The emit helpers (socket.js 177-199): \<open>if (io) { io.to(...).emit(event, data) }\<close>.\<close>

definition emitToUser :: "string \<Rightarrow> string \<Rightarrow> payload \<Rightarrow> socket list option \<Rightarrow> socket list option" where
  "emitToUser userId event dat io0 =
     (case io0 of None \<Rightarrow> None
      | Some srv \<Rightarrow> Some (io_to_emit (''user_'' @ userId) event dat srv))"

definition emitToRole :: "string \<Rightarrow> string \<Rightarrow> payload \<Rightarrow> socket list option \<Rightarrow> socket list option" where
  "emitToRole r event dat io0 =
     (case io0 of None \<Rightarrow> None
      | Some srv \<Rightarrow> Some (io_to_emit (''role_'' @ r) event dat srv))"

definition emitToDepartment :: "string \<Rightarrow> string \<Rightarrow> payload \<Rightarrow> socket list option \<Rightarrow> socket list option" where
  "emitToDepartment dept event dat io0 =
     (case io0 of None \<Rightarrow> None
      | Some srv \<Rightarrow> Some (io_to_emit (''dept_'' @ dept) event dat srv))"

definition emitToIssue :: "string \<Rightarrow> string \<Rightarrow> payload \<Rightarrow> socket list option \<Rightarrow> socket list option" where
  "emitToIssue issueId event dat io0 =
     (case io0 of None \<Rightarrow> None
      | Some srv \<Rightarrow> Some (io_to_emit (''issue_'' @ issueId) event dat srv))"

text \<open>
  \<open>broadcastNotification\<close> (socket.js 201-215). The argument may be \<open>null\<close> or
  \<open>undefined\<close> (\<open>None\<close>): reading \<open>notification.recipient\<close> then raises a TypeError,
  but only inside \<open>if (io)\<close>. A recipient that is present is an ObjectId, hence truthy;
  a department is truthy when present and not the empty string.
\<close>

definition broadcastNotification ::
  "notification option \<Rightarrow> socket list option \<Rightarrow> js_error + socket list option" where
  "broadcastNotification n io0 =
     (case io0 of None \<Rightarrow> Inr None
      | Some srv \<Rightarrow>
          (case n of None \<Rightarrow> Inl TypeError
           | Some nt \<Rightarrow>
               (let io1 = (case recipient nt of
                             Some r \<Rightarrow> emitToUser r ''notification'' (PNotification nt) io0
                           | None \<Rightarrow> io0)
                in if ntype nt = ''system_announcement''
                   then Inr (map_option (io_emit ''system_notification'' (PNotification nt)) io1)
                   else if ntype nt = ''department_update'' \<and> ndepartment nt \<noteq> None
                             \<and> ndepartment nt \<noteq> Some []
                   then (case ndepartment nt of
                           Some d \<Rightarrow> Inr (emitToDepartment d ''department_notification''
                                            (PNotification nt) io1)
                         | None \<Rightarrow> Inr io1)
                   else Inr io1)))"

record connected_user =
  cu_id :: "string option"
  cu_name :: string
  cu_role :: string
  cu_department :: string
  cu_connectedAt :: int

text \<open>
  \<open>getConnectedUsers\<close> (socket.js 217-234): the sockets of the server that carry a
  \<open>user\<close>; \<open>socket.connectedAt || new Date()\<close>.
\<close>

definition getConnectedUsers :: "int \<Rightarrow> socket list option \<Rightarrow> connected_user list" where
  "getConnectedUsers now io0 =
     (case io0 of None \<Rightarrow> []
      | Some srv \<Rightarrow>
          List.map_filter
            (\<lambda>s. case sock_user s of None \<Rightarrow> None
                 | Some u \<Rightarrow>
                     Some \<lparr>cu_id = sock_userId s,
                           cu_name = firstName u @ '' '' @ lastName u,
                           cu_role = role u,
                           cu_department = department u,
                           cu_connectedAt = (case connectedAt s of Some t \<Rightarrow> t | None \<Rightarrow> now)\<rparr>)
            srv)"

subsection \<open>Connection authentication (socket.js 19-55)\<close>

record handshake =
  auth_token :: "string option"
  authorization :: "string option"

text \<open>
  \<open>jwt.verify\<close> is a collaborator: it throws on a malformed or wrongly signed token and
  on an expired one, or returns the payload, whose \<open>id\<close> may be absent.
\<close>

datatype jwt_result = JsonWebTokenError | TokenExpiredError | Decoded "oid option"

text \<open>\<open>s.replace('Bearer ', '')\<close>: the first occurrence of the pattern is removed.\<close>

fun replace_bearer :: "string \<Rightarrow> string" where
  "replace_bearer [] = []"
| "replace_bearer (c # cs) =
     (if take 7 (c # cs) = ''Bearer '' then drop 7 (c # cs) else c # replace_bearer cs)"

text \<open>
  \<open>socket.handshake.auth.token || socket.handshake.headers.authorization?.replace(...)\<close>:
  an empty or absent \<open>auth.token\<close> falls through to the header.
\<close>

definition handshake_token :: "handshake \<Rightarrow> string option" where
  "handshake_token h =
     (case auth_token h of
        Some t \<Rightarrow> if t \<noteq> [] then Some t else map_option replace_bearer (authorization h)
      | None \<Rightarrow> map_option replace_bearer (authorization h))"

definition findById_user :: "user list \<Rightarrow> oid option \<Rightarrow> user option" where
  "findById_user us idopt =
     (case idopt of None \<Rightarrow> None | Some i \<Rightarrow> find (\<lambda>u. user_id u = i) us)"

text \<open>
  The \<open>io.use\<close> middleware: \<open>Inl\<close> is \<open>next(new Error(...))\<close>, \<open>Inr\<close> is \<open>next()\<close> with
  the user stored on the socket. Whatever \<open>jwt.verify\<close> throws is caught and answered
  'Authentication failed'; \<open>User.findById\<close> of an absent id finds nothing.
\<close>

definition socket_auth :: "(string \<Rightarrow> jwt_result) \<Rightarrow> user list \<Rightarrow> handshake \<Rightarrow> string + user" where
  "socket_auth jwt_verify us h =
     (case handshake_token h of
        None \<Rightarrow> Inl ''Authentication token required''
      | Some token \<Rightarrow>
          if token = [] then Inl ''Authentication token required''
          else (case jwt_verify token of
                  JsonWebTokenError \<Rightarrow> Inl ''Authentication failed''
                | TokenExpiredError \<Rightarrow> Inl ''Authentication failed''
                | Decoded idopt \<Rightarrow>
                    (case findById_user us idopt of
                       None \<Rightarrow> Inl ''Invalid user''
                     | Some u \<Rightarrow> if \<not> isActive u then Inl ''Invalid user'' else Inr u)))"

definition socket_join :: "string \<Rightarrow> socket \<Rightarrow> socket" where
  "socket_join room s = (if room \<in> set (rooms s) then s else s\<lparr>rooms := rooms s @ [room]\<rparr>)"

text \<open>The joins at the head of the \<open>connection\<close> handler (socket.js 43-55).\<close>

definition on_connection :: "socket \<Rightarrow> socket" where
  "on_connection s =
     (case (sock_userId s, sock_user s) of
        (Some uid, Some u) \<Rightarrow>
          (let s1 = socket_join (''user_'' @ uid) s;
               s2 = socket_join (''role_'' @ role u) s1
           in if department u \<noteq> [] \<and> department u \<noteq> ''general''
              then socket_join (''dept_'' @ department u) s2 else s2)
      | _ \<Rightarrow> s)"

text \<open>
  A connection attempt with socket id \<open>sid\<close>. An error from the middleware refuses the
  connection: the socket is not registered with the server and the \<open>connection\<close>
  handler does not run. Otherwise the socket, in the room of its own id, is registered and
  the handler runs.
\<close>

definition connect ::
  "(string \<Rightarrow> jwt_result) \<Rightarrow> user list \<Rightarrow> string \<Rightarrow> handshake \<Rightarrow> socket list
     \<Rightarrow> (string + unit) \<times> socket list" where
  "connect jwt_verify us sid h srv =
     (case socket_auth jwt_verify us h of
        Inl err \<Rightarrow> (Inl err, srv)
      | Inr u \<Rightarrow>
          (Inr (),
           srv @ [on_connection
                    \<lparr>sock_id = sid, sock_userId = Some (user_id u), sock_user = Some u,
                      rooms = [sid], connectedAt = None, received = []\<rparr>]))"

definition rooms_of :: "string \<Rightarrow> socket list \<Rightarrow> string list" where
  "rooms_of sid srv = concat (map rooms (filter (\<lambda>s. sock_id s = sid) srv))"

section \<open>Rate guard (middleware/auth.js 184-213)\<close>

text \<open>
  \<open>rateLimit(maxRequests, windowMs)\<close> closes over the map \<open>requests\<close>, empty at first;
  the returned middleware is run with the key (\<open>req.user._id\<close> or \<open>req.ip\<close>) and the
  clock reading \<open>Date.now()\<close>. \<open>True\<close> is \<open>next()\<close>, \<open>False\<close> the 429 response. The
  rejecting branch returns before \<open>requests.set\<close>.
\<close>

definition rateLimit ::
  "nat \<Rightarrow> int \<Rightarrow> ('k \<rightharpoonup> int list) \<Rightarrow> 'k \<Rightarrow> int \<Rightarrow> bool \<times> ('k \<rightharpoonup> int list)" where
  "rateLimit maxRequests windowMs requests userId now =
     (let requests1 = (if requests userId = None then requests(userId \<mapsto> []) else requests);
          userRequests = (case requests1 userId of Some ts \<Rightarrow> ts | None \<Rightarrow> []);
          validRequests = filter (\<lambda>time. now - time < windowMs) userRequests
      in if length validRequests \<ge> maxRequests then (False, requests1)
         else (True, requests1(userId \<mapsto> validRequests @ [now])))"

text \<open>Successive calls of the middleware by one key, at the given clock readings.\<close>

fun rate_calls ::
  "nat \<Rightarrow> int \<Rightarrow> ('k \<rightharpoonup> int list) \<Rightarrow> 'k \<Rightarrow> int list \<Rightarrow> bool list \<times> ('k \<rightharpoonup> int list)" where
  "rate_calls maxRequests windowMs requests userId [] = ([], requests)"
| "rate_calls maxRequests windowMs requests userId (now # later) =
     (let (ok, requests1) = rateLimit maxRequests windowMs requests userId now;
          (oks, requests2) = rate_calls maxRequests windowMs requests1 userId later
      in (ok # oks, requests2))"

text \<open>
  The clock readings lie within one window: each later reading is less than \<open>windowMs\<close>
  after each earlier one.
\<close>

fun within_window :: "int \<Rightarrow> int list \<Rightarrow> bool" where
  "within_window windowMs [] = True"
| "within_window windowMs (t # ts) =
     (list_all (\<lambda>u. u - t < windowMs) ts \<and> within_window windowMs ts)"

text \<open>No key holds more than \<open>maxRequests\<close> attempts: true of the empty map, kept by every call.\<close>

definition bounded_requests :: "nat \<Rightarrow> ('k \<rightharpoonup> int list) \<Rightarrow> bool" where
  "bounded_requests maxRequests requests =
     (\<forall>k ts. requests k = Some ts \<longrightarrow> length ts \<le> maxRequests)"

section \<open>Persistence\<close>

text \<open>
  The enumerations of the Issue schema: \<open>status\<close> (Issue.js 41) and \<open>timeline.action\<close>
  (Issue.js 93).
\<close>

definition status_enum :: "string list" where
  "status_enum = [''submitted'', ''acknowledged'', ''in_progress'', ''under_review'',
                  ''resolved'', ''closed'', ''rejected'']"

definition timeline_action_enum :: "string list" where
  "timeline_action_enum = [''created'', ''acknowledged'', ''assigned'', ''in_progress'',
                           ''under_review'', ''resolved'', ''closed'', ''rejected'',
                           ''comment_added'', ''priority_changed'']"

text \<open>
  \<open>issue.save()\<close> validates the document against the schema before writing it and rejects
  with a ValidationError otherwise. Of the schema, the paths the modelled routes write are
  checked: \<open>status\<close> and the \<open>action\<close> of the timeline entries. A saved document
  replaces the stored one of the same \<open>_id\<close>, or is inserted.
\<close>

definition validate_issue :: "issue \<Rightarrow> bool" where
  "validate_issue i =
     (status i \<in> set status_enum \<and>
      list_all (\<lambda>e. action e \<in> set timeline_action_enum) (timeline i))"

definition store_issue :: "issue \<Rightarrow> issue list \<Rightarrow> issue list" where
  "store_issue i coll =
     (if list_ex (\<lambda>j. issue_id j = issue_id i) coll
      then map (\<lambda>j. if issue_id j = issue_id i then i else j) coll
      else coll @ [i])"

definition save_issue :: "issue \<Rightarrow> state \<Rightarrow> js_error + state" where
  "save_issue i st =
     (if validate_issue i then Inr (st\<lparr>issues := store_issue i (issues st)\<rparr>)
      else Inl ValidationError)"

text \<open>
  The \<open>:id\<close> route parameter either casts to an ObjectId or makes \<open>findById\<close> reject with
  a CastError.
\<close>

datatype id_param = Malformed string | ObjectId oid

definition findById_issue :: "state \<Rightarrow> id_param \<Rightarrow> js_error + issue option" where
  "findById_issue st idp =
     (case idp of
        Malformed s \<Rightarrow> Inl CastError
      | ObjectId k \<Rightarrow> Inr (find (\<lambda>i. issue_id i = k) (issues st)))"

text \<open>
  \<open>Notification.createNotification\<close> (Notification.js 115-126). Whether the datastore
  accepts the record is the collaborator \<open>persist\<close>; a rejected \<open>save()\<close> throws before
  the realtime emit.
\<close>

definition createNotification ::
  "(notification \<Rightarrow> bool) \<Rightarrow> notification \<Rightarrow> state \<Rightarrow> (js_error + notification) \<times> state" where
  "createNotification persist n st =
     (if \<not> persist n then (Inl PersistError, st)
      else (Inr n,
            st\<lparr>notifications := notifications st @ [n],
               io := (case io st of None \<Rightarrow> None
                      | Some srv \<Rightarrow>
                          Some (io_to_emit
                                  (''user_'' @ (case recipient n of Some r \<Rightarrow> r
                                                | None \<Rightarrow> ''undefined''))
                                  ''notification'' (PNotification n) srv))\<rparr>))"

section \<open>Routes (routes/issues.js, middleware/auth.js)\<close>

text \<open>
  \<open>authorize(...roles)\<close> (auth.js 63-83): \<open>None\<close> is \<open>next()\<close>. \<open>req.user\<close> is what
  \<open>authenticate\<close> left on the request.
\<close>

definition authorize :: "string list \<Rightarrow> user option \<Rightarrow> res option" where
  "authorize roles req_user =
     (case req_user of
        None \<Rightarrow> Some (respond 401 ''Authentication required.'')
      | Some u \<Rightarrow>
          if role u \<notin> set roles
          then Some (respond 403 ''Access denied. Insufficient permissions.'')
          else None)"

subsection \<open>PATCH /:id/status (issues.js 472-545)\<close>

text \<open>
  The body as the handler reads it, after the validators' sanitizers: \<open>notes\<close> and
  \<open>estimatedResolutionTime\<close> may be absent (or falsy, for the latter); a present
  \<open>estimatedResolutionTime\<close> is the instant \<open>new Date\<close> makes of it. The validators
  (issues.js 473-476) check \<open>status\<close> against the seven statuses and the length of
  \<open>notes\<close>; the handler answers 400 when they found an error.
\<close>

record status_body =
  b_status :: string
  b_notes :: "string option"
  b_estimatedResolutionTime :: "int option"

definition status_body_valid :: "status_body \<Rightarrow> bool" where
  "status_body_valid b =
     (b_status b \<in> set [''submitted'', ''acknowledged'', ''in_progress'', ''under_review'',
                        ''resolved'', ''closed'', ''rejected'']
      \<and> (case b_notes b of None \<Rightarrow> True | Some n \<Rightarrow> length n \<le> 500))"

definition status_notification :: "user \<Rightarrow> issue \<Rightarrow> string \<Rightarrow> string \<Rightarrow> string option \<Rightarrow> notification" where
  "status_notification u i oldStatus newStatus notes =
     \<lparr>recipient = Some (reportedBy i),
      sender = Some (user_id u),
      ntype = ''issue_updated'',
      ntitle = ''Issue Status Updated'',
      nmessage = ''Your issue '' @ [CHR 0x22] @ title i @ [CHR 0x22]
                   @ '' status has been changed from '' @ oldStatus @ '' to '' @ newStatus
                   @ (case notes of None \<Rightarrow> []
                      | Some n \<Rightarrow> if n \<noteq> [] then '': '' @ n else []),
      relatedIssue = Some (issue_id i),
      npriority = (if newStatus = ''resolved'' then ''high'' else ''medium''),
      actionUrl = Some (''/issues/'' @ issue_id i),
      actionText = Some ''View Issue'',
      ndepartment = None\<rparr>"

text \<open>
  \<open>await issue.populate(...).populate(...)\<close> (issues.js 529-530). \<open>Document.populate\<close> returns
  a promise (the handler of POST / awaits it as such, issues.js 362), and a promise has no
  \<open>populate\<close>: the chained call raises a TypeError.
\<close>

definition populate_chain :: "js_error + unit" where
  "populate_chain = Inl TypeError"

text \<open>
  The handler. The populate chain runs after the save and the notification; what it
  raises reaches the \<open>catch\<close>, which answers 500.
\<close>

definition patch_status_handler ::
  "(notification \<Rightarrow> bool) \<Rightarrow> int \<Rightarrow> user \<Rightarrow> id_param \<Rightarrow> status_body \<Rightarrow> state \<Rightarrow> res \<times> state" where
  "patch_status_handler persist now u idp b st =
     (if \<not> status_body_valid b then (respond 400 ''Validation failed'', st)
      else
        (case findById_issue st idp of
           Inl err \<Rightarrow> (respond 500 ''Failed to update issue status'', st)
         | Inr None \<Rightarrow> (respond 404 ''Issue not found'', st)
         | Inr (Some i) \<Rightarrow>
             if role u \<noteq> ''admin'' \<and> department u \<noteq> category i
             then (respond 403 ''Access denied. Department mismatch.'', st)
             else
               (let oldStatus = status i;
                    i1 = updateStatus now (b_status b) (user_id u)
                           (case b_notes b of None \<Rightarrow> [] | Some n \<Rightarrow> n) i;
                    i2 = (case b_estimatedResolutionTime b of
                            None \<Rightarrow> i1
                          | Some t \<Rightarrow> i1\<lparr>estimatedResolutionTime := Some t\<rparr>)
                in case save_issue i2 st of
                     Inl err \<Rightarrow> (respond 500 ''Failed to update issue status'', st)
                   | Inr st1 \<Rightarrow>
                       (case createNotification persist
                               (status_notification u i2 oldStatus (b_status b) (b_notes b)) st1 of
                          (Inl err, st2) \<Rightarrow> (respond 500 ''Failed to update issue status'', st2)
                        | (Inr n, st2) \<Rightarrow>
                            (case populate_chain of
                               Inl err \<Rightarrow> (respond 500 ''Failed to update issue status'', st2)
                             | Inr populated \<Rightarrow>
                                 (respond 200 ''Issue status updated successfully'', st2))))))"

definition patch_status ::
  "(notification \<Rightarrow> bool) \<Rightarrow> int \<Rightarrow> user option \<Rightarrow> id_param \<Rightarrow> status_body \<Rightarrow> state \<Rightarrow> res \<times> state" where
  "patch_status persist now req_user idp b st =
     (case authorize [''admin'', ''department_head'', ''field_officer''] req_user of
        Some r \<Rightarrow> (r, st)
      | None \<Rightarrow>
          (case req_user of
             None \<Rightarrow> (respond 401 ''Authentication required.'', st)
           | Some u \<Rightarrow> patch_status_handler persist now u idp b st))"

subsection \<open>POST /:id/upvote (issues.js 652-699)\<close>

text \<open>\<open>Array.prototype.findIndex\<close>: the first index whose element passes, or \<open>-1\<close>.\<close>

fun findIndex :: "('a \<Rightarrow> bool) \<Rightarrow> 'a list \<Rightarrow> int" where
  "findIndex P [] = - 1"
| "findIndex P (x # xs) =
     (if P x then 0 else (let r = findIndex P xs in if r = - 1 then - 1 else r + 1))"

text \<open>\<open>xs.splice(i, 1)\<close> for an index \<open>i > -1\<close> that \<open>findIndex\<close> returned.\<close>

definition splice1 :: "int \<Rightarrow> 'a list \<Rightarrow> 'a list" where
  "splice1 i xs = take (nat i) xs @ drop (nat i + 1) xs"

text \<open>\<open>req.user.updateOne({ $inc: { 'stats.contributionScore': k } })\<close>.\<close>

definition inc_contributionScore :: "oid \<Rightarrow> int \<Rightarrow> state \<Rightarrow> state" where
  "inc_contributionScore uid k st =
     st\<lparr>users := map (\<lambda>x. if user_id x = uid
                           then x\<lparr>contributionScore := contributionScore x + k\<rparr> else x)
                     (users st)\<rparr>"

text \<open>\<open>isUpvoted\<close> as GET /:id computes it (issues.js 245): \<open>issue.upvotes.some(...)\<close>.\<close>

definition isUpvoted :: "oid \<Rightarrow> issue \<Rightarrow> bool" where
  "isUpvoted uid i = list_ex (\<lambda>v. upvote_user v = uid) (upvotes i)"

definition upvote_handler :: "int \<Rightarrow> user \<Rightarrow> id_param \<Rightarrow> state \<Rightarrow> res \<times> state" where
  "upvote_handler now u idp st =
     (case findById_issue st idp of
        Inl err \<Rightarrow> (respond 500 ''Failed to upvote issue'', st)
      | Inr None \<Rightarrow> (respond 404 ''Issue not found'', st)
      | Inr (Some i) \<Rightarrow>
          (let existingUpvoteIndex = findIndex (\<lambda>v. upvote_user v = user_id u) (upvotes i) in
           if existingUpvoteIndex > - 1 then
             (let i1 = i\<lparr>upvotes := splice1 existingUpvoteIndex (upvotes i)\<rparr> in
              case save_issue i1 st of
                Inl err \<Rightarrow> (respond 500 ''Failed to upvote issue'', st)
              | Inr st1 \<Rightarrow>
                  (\<lparr>res_code = 200, res_message = ''Upvote removed'',
                    res_upvoteCount = Some (length (upvotes i1)),
                    res_isUpvoted = Some (existingUpvoteIndex = - 1)\<rparr>, st1))
           else
             (let i1 = i\<lparr>upvotes := upvotes i @
                          [\<lparr>upvote_user = user_id u, upvote_timestamp = now\<rparr>]\<rparr>;
                  st1 = inc_contributionScore (user_id u) 1 st
              in case save_issue i1 st1 of
                   Inl err \<Rightarrow> (respond 500 ''Failed to upvote issue'', st1)
                 | Inr st2 \<Rightarrow>
                     (\<lparr>res_code = 200, res_message = ''Issue upvoted'',
                       res_upvoteCount = Some (length (upvotes i1)),
                       res_isUpvoted = Some (existingUpvoteIndex = - 1)\<rparr>, st2))))"

subsection \<open>POST / (issues.js 275-377)\<close>

text \<open>
  The body as the handler reads it, after the sanitizers of \<open>createIssueValidation\<close>
  (issues.js 35-62), which check the lengths of \<open>title\<close> and \<open>description\<close>, the
  \<open>category\<close>, the optional \<open>priority\<close>, and that latitude and longitude are floats
  in range (\<open>c_location_ok\<close>).
\<close>

record create_body =
  c_title :: string
  c_description :: string
  c_category :: string
  c_priority :: "string option"
  c_location_ok :: bool

definition create_body_valid :: "create_body \<Rightarrow> bool" where
  "create_body_valid b =
     (5 \<le> length (c_title b) \<and> length (c_title b) \<le> 200
      \<and> 10 \<le> length (c_description b) \<and> length (c_description b) \<le> 2000
      \<and> c_category b \<in> set [''roads'', ''water'', ''garbage'', ''streetlights'', ''drainage'',
                               ''parks'', ''buildings'', ''traffic'', ''noise'', ''other'']
      \<and> c_location_ok b
      \<and> (case c_priority b of None \<Rightarrow> True
          | Some p \<Rightarrow> p \<in> set [''low'', ''medium'', ''high'', ''critical'']))"

text \<open>
  \<open>save()\<close> of a document made by \<open>new Issue({...})\<close>. The schema requires
  \<open>trackingId\<close> (Issue.js 4-8); the hook that generates one is a \<open>pre('save')\<close> hook
  (Issue.js 180-185), and validation runs before the \<open>pre('save')\<close> hooks, so a
  document that carries no \<open>trackingId\<close> when \<open>save()\<close> is called is rejected with a
  ValidationError. The first argument is the \<open>trackingId\<close> the document carries.
\<close>

definition save_new_issue :: "string option \<Rightarrow> issue \<Rightarrow> state \<Rightarrow> js_error + state" where
  "save_new_issue trackingId i st =
     (case trackingId of None \<Rightarrow> Inl ValidationError | Some t \<Rightarrow> save_issue i st)"

text \<open>
  \<open>User.find({ department: category, role: { $in: [...] }, isActive: true })\<close>
  (issues.js 339). routes/issues.js requires Issue, Comment and Notification (lines 5-7)
  and no User: the identifier is unbound in the module, and evaluating it raises a
  ReferenceError before any query is made.
\<close>

definition route_User_find :: "string \<Rightarrow> state \<Rightarrow> js_error + user list" where
  "route_User_find cat st = Inl ReferenceError"

definition created_notification :: "user \<Rightarrow> issue \<Rightarrow> user \<Rightarrow> notification" where
  "created_notification req_user i u =
     \<lparr>recipient = Some (user_id u),
      sender = Some (user_id req_user),
      ntype = ''issue_created'',
      ntitle = ''New Issue Reported'',
      nmessage = ''A new '' @ category i @ '' issue has been reported: ''
                   @ [CHR 0x22] @ title i @ [CHR 0x22],
      relatedIssue = Some (issue_id i),
      npriority = (if priority i = ''critical'' then ''urgent'' else ''medium''),
      actionUrl = Some (''/issues/'' @ issue_id i),
      actionText = Some ''View Issue'',
      ndepartment = None\<rparr>"

text \<open>
  \<open>departmentUsers.map(user => Notification.createNotification({...}))\<close> starts one
  creation per recipient; none waits for another, so each runs to its own end whatever
  the others do. The creations are taken in the order of the recipients.
\<close>

fun create_all ::
  "(notification \<Rightarrow> bool) \<Rightarrow> notification list \<Rightarrow> state
     \<Rightarrow> (js_error + notification) list \<times> state" where
  "create_all persist [] st = ([], st)"
| "create_all persist (n # ns) st =
     (let (r, st1) = createNotification persist n st;
          (rs, st2) = create_all persist ns st1
      in (r # rs, st2))"

text \<open>\<open>Promise.all\<close>: rejects with a rejection among the results, else yields the values.\<close>

fun promise_all :: "('e + 'a) list \<Rightarrow> 'e + 'a list" where
  "promise_all [] = Inr []"
| "promise_all (Inl e # rs) = Inl e"
| "promise_all (Inr v # rs) = (case promise_all rs of Inl e \<Rightarrow> Inl e | Inr vs \<Rightarrow> Inr (v # vs))"

text \<open>
  The handler, statement by statement; every rejection and exception reaches its
  \<open>catch\<close>, which answers 500. \<open>new_id\<close> is the \<open>_id\<close> the constructor gives the
  document, \<open>uploads_ok\<close> the outcome of the photo uploads (true when the request carries
  no file). The constructor is given no \<open>trackingId\<close> (issues.js 298-308). Of the
  \<open>$inc\<close> of the reporter's stats, \<open>contributionScore\<close> is modelled.
\<close>

definition create_issue_handler ::
  "(notification \<Rightarrow> bool) \<Rightarrow> int \<Rightarrow> oid \<Rightarrow> bool \<Rightarrow> user \<Rightarrow> create_body \<Rightarrow> state
     \<Rightarrow> res \<times> state" where
  "create_issue_handler persist now new_id uploads_ok req_user b st =
     (if \<not> create_body_valid b then (respond 400 ''Validation failed'', st)
      else
        (let issue0 =
               \<lparr>issue_id = new_id, title = c_title b, category = c_category b,
                priority = (case c_priority b of None \<Rightarrow> ''medium'' | Some p \<Rightarrow> p),
                status = ''submitted'', reportedBy = user_id req_user, assignedTo = None,
                timeline = [], estimatedResolutionTime = None, actualResolutionTime = None,
                upvotes = []\<rparr>
         in if \<not> uploads_ok then (respond 500 ''Failed to create issue'', st)
            else
              (let issue1 = addTimelineEntry now ''created'' ''Issue reported by citizen''
                              (user_id req_user) MetaEmpty issue0
               in case save_new_issue None issue1 st of
                    Inl err \<Rightarrow> (respond 500 ''Failed to create issue'', st)
                  | Inr st1 \<Rightarrow>
                      (let st2 = inc_contributionScore (user_id req_user) 10 st1
                       in case route_User_find (c_category b) st2 of
                            Inl err \<Rightarrow> (respond 500 ''Failed to create issue'', st2)
                          | Inr departmentUsers \<Rightarrow>
                              (let (rs, st3) =
                                     create_all persist
                                       (map (created_notification req_user issue1) departmentUsers)
                                       st2
                               in case promise_all rs of
                                    Inl err \<Rightarrow> (respond 500 ''Failed to create issue'', st3)
                                  | Inr ns \<Rightarrow>
                                      (respond 201 ''Issue reported successfully'', st3))))))"

section \<open>Auxiliary definitions for the proofs\<close>

text \<open>Removing the first element that passes a test: what \<open>findIndex\<close> and \<open>splice\<close> do together.\<close>

fun remove_first :: "('a \<Rightarrow> bool) \<Rightarrow> 'a list \<Rightarrow> 'a list" where
  "remove_first P [] = []"
| "remove_first P (x # xs) = (if P x then xs else x # remove_first P xs)"

subsection \<open>Sample data\<close>

text \<open>A small municipality in the shape of the seed script: staff, a citizen and one issue.\<close>

definition mk_user :: "oid \<Rightarrow> string \<Rightarrow> string \<Rightarrow> bool \<Rightarrow> user" where
  "mk_user i r d a =
     \<lparr>user_id = i, firstName = ''Test'', lastName = ''User'', role = r, department = d,
      isActive = a, contributionScore = 0\<rparr>"

definition admin_user :: user where "admin_user = mk_user ''a1'' ''admin'' ''general'' True"
definition roads_head :: user where "roads_head = mk_user ''h1'' ''department_head'' ''roads'' True"
definition roads_officer :: user where "roads_officer = mk_user ''o1'' ''field_officer'' ''roads'' True"
definition roads_officer2 :: user where "roads_officer2 = mk_user ''o2'' ''field_officer'' ''roads'' True"
definition water_head :: user where "water_head = mk_user ''h2'' ''department_head'' ''water'' True"
definition citizen :: user where "citizen = mk_user ''c1'' ''citizen'' ''general'' True"
definition former_officer :: user where "former_officer = mk_user ''o9'' ''field_officer'' ''roads'' False"

definition pothole :: issue where
  "pothole =
     \<lparr>issue_id = ''i1'', title = ''Pothole on Main Road'', category = ''roads'',
      priority = ''medium'', status = ''acknowledged'', reportedBy = ''c1'',
      assignedTo = None,
      timeline = [\<lparr>action = ''created'', description = ''Issue reported by citizen'',
                   performedBy = ''c1'', timestamp = 0, metadata = MetaEmpty\<rparr>],
      estimatedResolutionTime = None, actualResolutionTime = None, upvotes = []\<rparr>"

definition town :: state where
  "town =
     \<lparr>issues = [pothole],
      users = [admin_user, roads_head, roads_officer, roads_officer2, water_head, citizen,
               former_officer],
      notifications = [], io = None\<rparr>"

definition status_request :: "string \<Rightarrow> status_body" where
  "status_request s = \<lparr>b_status = s, b_notes = None, b_estimatedResolutionTime = None\<rparr>"

definition pothole_report :: create_body where
  "pothole_report =
     \<lparr>c_title = ''Pothole on Main Road'',
      c_description = ''Large pothole causing traffic issues and vehicle damage'',
      c_category = ''roads'', c_priority = None, c_location_ok = True\<rparr>"

text \<open>A datastore that rejects exactly the notification addressed to the first field officer.\<close>

definition rejects_o1 :: "notification \<Rightarrow> bool" where
  "rejects_o1 n = (recipient n \<noteq> Some ''o1'')"

text \<open>A token verifier: one good token, one expired, everything else malformed.\<close>

definition sample_verify :: "string \<Rightarrow> jwt_result" where
  "sample_verify t =
     (if t = ''good'' then Decoded (Some ''h1'')
      else if t = ''old'' then TokenExpiredError
      else JsonWebTokenError)"

section \<open>The timeline\<close>

lemma recorded_transitions_append:
  "recorded_transitions (xs @ ys) = recorded_transitions xs @ recorded_transitions ys"
  by (induction xs) auto

lemma updateStatus_fields:
  "status (updateStatus now s by notes i) = s"
  "issue_id (updateStatus now s by notes i) = issue_id i"
  "actualResolutionTime (updateStatus now s by notes i) =
     (if s = ''resolved'' then Some now else actualResolutionTime i)"
  by (simp_all add: updateStatus_def addTimelineEntry_def Let_def)

lemma timeline_updateStatus:
  "timeline (updateStatus now s by notes i) =
     timeline i @ [\<lparr>action = s, description = status_description (status i) s notes,
                    performedBy = by, timestamp = now,
                    metadata = MetaStatus (status i) s notes\<rparr>]"
  by (simp add: updateStatus_def addTimelineEntry_def Let_def)

lemma timeline_apply_op:
  "\<exists>e. timeline (apply_op x i) = timeline i @ [e] \<and>
       recorded_transitions [e] = applied_transitions [x] i"
  by (cases x) (simp_all add: timeline_updateStatus assignIssue_def addTimelineEntry_def)

lemma timeline_apply_ops:
  "\<exists>es. timeline (apply_ops xs i) = timeline i @ es \<and> length es = length xs \<and>
        recorded_transitions es = applied_transitions xs i"
proof (induction xs arbitrary: i)
  case Nil
  show ?case by simp
next
  case (Cons x xs)
  obtain e where e: "timeline (apply_op x i) = timeline i @ [e]"
      "recorded_transitions [e] = applied_transitions [x] i"
    using timeline_apply_op by blast
  obtain es where es: "timeline (apply_ops xs (apply_op x i)) = timeline (apply_op x i) @ es"
      "length es = length xs"
      "recorded_transitions es = applied_transitions xs (apply_op x i)"
    using Cons.IH by blast
  have "recorded_transitions (e # es) = applied_transitions (x # xs) i"
    using e(2) es(3) recorded_transitions_append [of "[e]" es] by simp
  then show ?case
    using e(1) es(1,2) by (intro exI [of _ "e # es"]) simp
qed

text \<open>
  C2. A status transition appends exactly one timeline entry, which records the old
  status, the new status and the notes, and leaves every earlier entry as it was. After
  any sequence of operations on the issue the old timeline is a prefix of the new one, the
  timeline has grown by one entry per operation (so it never shrinks), and the transitions
  it records are those recorded before followed by the transitions applied, each once, in
  the order of application.
\<close>

theorem timeline_append_only:
  "timeline (updateStatus now s by notes i) =
     timeline i @ [\<lparr>action = s, description = status_description (status i) s notes,
                    performedBy = by, timestamp = now,
                    metadata = MetaStatus (status i) s notes\<rparr>]
   \<and> take (length (timeline i)) (timeline (apply_ops xs i)) = timeline i
   \<and> length (timeline (apply_ops xs i)) = length (timeline i) + length xs
   \<and> length (timeline i) \<le> length (timeline (apply_ops xs i))
   \<and> recorded_transitions (timeline (apply_ops xs i)) =
       recorded_transitions (timeline i) @ applied_transitions xs i"
proof -
  obtain es where es: "timeline (apply_ops xs i) = timeline i @ es" "length es = length xs"
      "recorded_transitions es = applied_transitions xs i"
    using timeline_apply_ops by blast
  show ?thesis
    using es by (simp add: timeline_updateStatus recorded_transitions_append)
qed

text \<open>
  On the sample issue: acknowledged, assigned, moved to in_progress and resolved; the
  timeline keeps its 'created' entry and records the two transitions in order.
\<close>

theorem timeline_append_only_witness:
  "length (timeline (apply_ops [Transition 10 ''in_progress'' ''h1'' ''crew sent'',
                                 Assign 20 (Some ''o1'') ''roads'' ''h1'',
                                 Transition 30 ''resolved'' ''o1'' []] pothole)) = 4
   \<and> take 1 (timeline (apply_ops [Transition 10 ''in_progress'' ''h1'' ''crew sent'',
                                 Assign 20 (Some ''o1'') ''roads'' ''h1'',
                                 Transition 30 ''resolved'' ''o1'' []] pothole)) = timeline pothole
   \<and> recorded_transitions
        (timeline (apply_ops [Transition 10 ''in_progress'' ''h1'' ''crew sent'',
                              Assign 20 (Some ''o1'') ''roads'' ''h1'',
                              Transition 30 ''resolved'' ''o1'' []] pothole)) =
       [(''acknowledged'', ''in_progress'', ''crew sent''), (''in_progress'', ''resolved'', [])]"
  using timeline_append_only [of 0 "''x''" "''y''" "[]" pothole
      "[Transition 10 ''in_progress'' ''h1'' ''crew sent'',
        Assign 20 (Some ''o1'') ''roads'' ''h1'',
        Transition 30 ''resolved'' ''o1'' []]"]
  by (simp add: pothole_def updateStatus_def assignIssue_def addTimelineEntry_def Let_def)

section \<open>The rate guard\<close>

lemma rateLimit_present:
  "requests k = Some xs \<Longrightarrow>
   rateLimit m w requests k now =
     (if m \<le> length (filter (\<lambda>t. now - t < w) xs) then (False, requests)
      else (True, requests(k \<mapsto> filter (\<lambda>t. now - t < w) xs @ [now])))"
  by (simp add: rateLimit_def Let_def)

lemma rateLimit_absent:
  "requests k = None \<Longrightarrow>
   rateLimit m w requests k now = rateLimit m w (requests(k \<mapsto> [])) k now"
  by (simp add: rateLimit_def Let_def)

lemma filter_all_valid:
  "list_all (\<lambda>x. now - x < w) xs \<Longrightarrow> filter (\<lambda>t. now - t < (w::int)) xs = xs"
  by (induction xs) auto

lemma rate_calls_window:
  "requests k = Some xs \<Longrightarrow> list_all (\<lambda>x. list_all (\<lambda>t. t - x < w) ts) xs \<Longrightarrow>
   within_window w ts \<Longrightarrow>
   rate_calls m w requests k ts =
     (map (\<lambda>j. length xs + j < m) [0..<length ts],
      requests(k \<mapsto> xs @ take (m - length xs) ts))"
proof (induction ts arbitrary: xs requests)
  case Nil
  then show ?case by (simp add: fun_upd_idem)
next
  case (Cons t ts)
  have valid: "filter (\<lambda>u. t - u < w) xs = xs"
    using Cons.prems(2) by (intro filter_all_valid) (simp add: list_all_iff)
  have later: "list_all (\<lambda>x. list_all (\<lambda>u. u - x < w) ts) xs"
    using Cons.prems(2) by (simp add: list_all_iff)
  have win: "within_window w ts" "list_all (\<lambda>u. u - t < w) ts"
    using Cons.prems(3) by simp_all
  show ?case
  proof (cases "m \<le> length xs")
    case True
    have step: "rateLimit m w requests k t = (False, requests)"
      using True valid by (simp add: rateLimit_present [of requests k xs] Cons.prems(1))
    have rest: "rate_calls m w requests k ts =
        (map (\<lambda>j. length xs + j < m) [0..<length ts], requests(k \<mapsto> xs @ take (m - length xs) ts))"
      using Cons.IH [of requests xs] Cons.prems(1) later win(1) by blast
    have tk: "take (m - length xs) (t # ts) = take (m - length xs) ts"
      using True by simp
    have hd: "\<not> length xs + 0 < m"
      using True by simp
    have unf: "rate_calls m w requests k (t # ts) =
        (False # fst (rate_calls m w requests k ts), snd (rate_calls m w requests k ts))"
      by (simp add: step split: prod.splits)
    have idx: "map (\<lambda>j. length xs + j < m) [0..<length (t # ts)] =
        False # map (\<lambda>j. length xs + j < m) [0..<length ts]"
      using True by (simp add: map_upt_Suc del: upt_Suc)
    have "rate_calls m w requests k (t # ts) =
        (map (\<lambda>j. length xs + j < m) [0..<length (t # ts)],
         requests(k \<mapsto> xs @ take (m - length xs) (t # ts)))"
      unfolding unf idx tk rest by simp
    then show ?thesis .
  next
    case False
    have step: "rateLimit m w requests k t = (True, requests(k \<mapsto> xs @ [t]))"
      using False valid by (simp add: rateLimit_present [of requests k xs] Cons.prems(1))
    have later': "list_all (\<lambda>x. list_all (\<lambda>u. u - x < w) ts) (xs @ [t])"
      using later win(2) by simp
    have rest: "rate_calls m w (requests(k \<mapsto> xs @ [t])) k ts =
        (map (\<lambda>j. length (xs @ [t]) + j < m) [0..<length ts],
         (requests(k \<mapsto> xs @ [t]))(k \<mapsto> (xs @ [t]) @ take (m - length (xs @ [t])) ts))"
    proof (rule Cons.IH)
      show "(requests(k \<mapsto> xs @ [t])) k = Some (xs @ [t])" by simp
      show "list_all (\<lambda>x. list_all (\<lambda>u. u - x < w) ts) (xs @ [t])" by (rule later')
      show "within_window w ts" by (rule win(1))
    qed
    have tk: "take (m - length xs) (t # ts) = t # take (m - length (xs @ [t])) ts"
      using False by (simp add: take_Cons')
    have unf: "rate_calls m w requests k (t # ts) =
        (True # fst (rate_calls m w (requests(k \<mapsto> xs @ [t])) k ts),
         snd (rate_calls m w (requests(k \<mapsto> xs @ [t])) k ts))"
      by (simp add: step split: prod.splits)
    have idx: "map (\<lambda>j. length xs + j < m) [0..<length (t # ts)] =
        True # map (\<lambda>j. length (xs @ [t]) + j < m) [0..<length ts]"
      using False by (simp add: map_upt_Suc del: upt_Suc)
    have "rate_calls m w requests k (t # ts) =
        (map (\<lambda>j. length xs + j < m) [0..<length (t # ts)],
         requests(k \<mapsto> xs @ take (m - length xs) (t # ts)))"
      unfolding unf idx tk rest by simp
    then show ?thesis .
  qed
qed

lemma filter_full_length: "length xs \<le> length (filter P xs) \<Longrightarrow> filter P xs = xs"
proof (induction xs)
  case Nil
  show ?case by simp
next
  case (Cons x xs)
  show ?case
  proof (cases "P x")
    case True
    then show ?thesis using Cons by simp
  next
    case False
    then show ?thesis using Cons.prems length_filter_le [of P xs] by simp
  qed
qed

lemma rateLimit_bounded:
  "bounded_requests m R \<Longrightarrow> bounded_requests m (snd (rateLimit m w R k now))"
  by (auto simp: bounded_requests_def rateLimit_def Let_def split: if_splits option.splits)

lemma rateLimit_other_keys:
  "k' \<noteq> k \<Longrightarrow> snd (rateLimit m w R k now) k' = R k'"
  by (simp add: rateLimit_def Let_def)

lemma rateLimit_allowed_records:
  "fst (rateLimit m w R k now) \<Longrightarrow>
   snd (rateLimit m w R k now) k =
     Some (filter (\<lambda>t. now - t < w) (case R k of Some ts \<Rightarrow> ts | None \<Rightarrow> []) @ [now])"
  by (auto simp: rateLimit_def Let_def split: if_splits option.splits)

lemma rateLimit_pruned:
  assumes "bounded_requests m R" "0 < w"
  shows "\<exists>ys. snd (rateLimit m w R k now) k = Some ys \<and> list_all (\<lambda>t. now - t < w) ys"
proof (cases "R k")
  case None
  then show ?thesis using assms(2) by (simp add: rateLimit_def Let_def)
next
  case (Some xs)
  have len: "length xs \<le> m" using assms(1) Some by (simp add: bounded_requests_def)
  show ?thesis
  proof (cases "m \<le> length (filter (\<lambda>t. now - t < w) xs)")
    case True
    have "filter (\<lambda>t. now - t < w) xs = xs"
      using True len by (intro filter_full_length) simp
    then have "list_all (\<lambda>t. now - t < w) xs"
      by (simp add: filter_id_conv list_all_iff)
    then show ?thesis using True Some by (simp add: rateLimit_present [of R k xs])
  next
    case False
    then show ?thesis using assms(2) Some by (simp add: rateLimit_present [of R k xs] list_all_iff)
  qed
qed

text \<open>
  C4. With \<open>maxRequests = 5\<close> and \<open>windowMs = 1000\<close>, a key with no unexpired attempt
  on record that calls six times within one window is let through on the first five calls,
  each of which is recorded, and refused on the sixth. Pruning happens in the call itself:
  an allowed call stores the unexpired attempts of the key followed by the new one; from
  the empty map on, no key ever holds more than five attempts, after every call all
  attempts stored for the calling key are younger than the window, and the lists of the
  other keys are not touched (nothing but a call of the key changes its list).
\<close>

theorem rate_guard_five_per_window:
  assumes "requests k = None \<or>
           (\<exists>xs. requests k = Some xs \<and> list_all (\<lambda>x. \<not> t1 - x < 1000) xs)"
    and "within_window 1000 [t1, t2, t3, t4, t5, t6]"
    and "bounded_requests 5 R"
  shows "rate_calls 5 1000 requests k [t1, t2, t3, t4, t5, t6] =
           ([True, True, True, True, True, False], requests(k \<mapsto> [t1, t2, t3, t4, t5]))
       \<and> (fst (rateLimit 5 1000 R k now) \<longrightarrow>
            snd (rateLimit 5 1000 R k now) k =
              Some (filter (\<lambda>t. now - t < 1000) (case R k of Some ts \<Rightarrow> ts | None \<Rightarrow> [])
                    @ [now]))
       \<and> bounded_requests 5 (snd (rateLimit 5 1000 R k now))
       \<and> (\<exists>ys. snd (rateLimit 5 1000 R k now) k = Some ys
                \<and> list_all (\<lambda>t. now - t < 1000) ys)
       \<and> (\<forall>k'. k' \<noteq> k \<longrightarrow> snd (rateLimit 5 1000 R k now) k' = R k')"
proof -
  have first: "rateLimit 5 1000 requests k t1 = (True, requests(k \<mapsto> [t1]))"
  proof (cases "requests k")
    case None
    then show ?thesis by (simp add: rateLimit_def Let_def)
  next
    case (Some xs)
    then have "list_all (\<lambda>x. \<not> t1 - x < 1000) xs" using assms(1) by auto
    then have "filter (\<lambda>t. t1 - t < 1000) xs = []"
      by (induction xs) auto
    then show ?thesis using Some by (simp add: rateLimit_present [of requests k xs])
  qed
  have win: "list_all (\<lambda>x. list_all (\<lambda>t. t - x < 1000) [t2, t3, t4, t5, t6]) [t1]"
      "within_window 1000 [t2, t3, t4, t5, t6]"
    using assms(2) by simp_all
  have idx: "map (\<lambda>j. length [t1] + j < 5) [0..<length [t2, t3, t4, t5, t6]] =
               [True, True, True, True, False]"
    by (simp add: upt_rec)
  have rest: "rate_calls 5 1000 (requests(k \<mapsto> [t1])) k [t2, t3, t4, t5, t6] =
        ([True, True, True, True, False], requests(k \<mapsto> [t1, t2, t3, t4, t5]))"
  proof -
    have "rate_calls 5 1000 (requests(k \<mapsto> [t1])) k [t2, t3, t4, t5, t6] =
        (map (\<lambda>j. length [t1] + j < 5) [0..<length [t2, t3, t4, t5, t6]],
         (requests(k \<mapsto> [t1]))(k \<mapsto> [t1] @ take (5 - length [t1]) [t2, t3, t4, t5, t6]))"
    proof (rule rate_calls_window)
      show "(requests(k \<mapsto> [t1])) k = Some [t1]" by simp
      show "list_all (\<lambda>x. list_all (\<lambda>t. t - x < 1000) [t2, t3, t4, t5, t6]) [t1]"
        by (rule win(1))
      show "within_window 1000 [t2, t3, t4, t5, t6]" by (rule win(2))
    qed
    then show ?thesis unfolding idx by simp
  qed
  have calls: "rate_calls 5 1000 requests k [t1, t2, t3, t4, t5, t6] =
           ([True, True, True, True, True, False], requests(k \<mapsto> [t1, t2, t3, t4, t5]))"
    using first rest by simp
  have pruned: "\<exists>ys. snd (rateLimit 5 1000 R k now) k = Some ys
                \<and> list_all (\<lambda>t. now - t < 1000) ys"
    using rateLimit_pruned [OF assms(3), of 1000 k now] by simp
  show ?thesis
    using calls pruned rateLimit_bounded [OF assms(3), of 1000 k now]
      rateLimit_allowed_records [of 5 1000 R k now] rateLimit_other_keys [of _ k 5 1000 R now]
    by blast
qed

text \<open>
  Six calls 100 ms apart by a new key; and a call at 1050 by a key that holds the
  attempts 0 and 100: the attempt 0 is pruned, another key's list stays.
\<close>

theorem rate_guard_five_per_window_witness:
  "rate_calls 5 1000 Map.empty ''u1'' [0, 100, 200, 300, 400, 500] =
     ([True, True, True, True, True, False], [''u1'' \<mapsto> [0, 100, 200, 300, 400]])
   \<and> snd (rateLimit 5 1000 [''u1'' \<mapsto> [0, 100], ''u2'' \<mapsto> [7]] ''u1'' 1050) ''u1'' =
       Some [100, 1050]
   \<and> snd (rateLimit 5 1000 [''u1'' \<mapsto> [0, 100], ''u2'' \<mapsto> [7]] ''u1'' 1050) ''u2'' =
       Some [7]"
proof -
  have h1: "(Map.empty :: string \<rightharpoonup> int list) ''u1'' = None \<or>
            (\<exists>xs. (Map.empty :: string \<rightharpoonup> int list) ''u1'' = Some xs
                  \<and> list_all (\<lambda>x. \<not> 0 - x < 1000) xs)"
    by simp
  have h2: "within_window 1000 [0, 100, 200, 300, 400, 500]" by simp
  have h3: "bounded_requests 5 [''u1'' \<mapsto> [0, 100 :: int], ''u2'' \<mapsto> [7]]"
    by (simp add: bounded_requests_def)
  have ok: "fst (rateLimit 5 1000 [''u1'' \<mapsto> [0, 100], ''u2'' \<mapsto> [7]] ''u1'' 1050)"
    by (simp add: rateLimit_def Let_def)
  show ?thesis
    using rate_guard_five_per_window [OF h1 h2 h3, where now = 1050] ok by simp
qed

section \<open>The upvote toggle\<close>

lemma findIndex_ge: "- 1 \<le> findIndex P xs"
  by (induction xs) (auto simp: Let_def)

lemma findIndex_none: "findIndex P xs = - 1 \<longleftrightarrow> \<not> list_ex P xs"
proof (induction xs)
  case Nil
  show ?case by simp
next
  case (Cons x xs)
  show ?case
    using Cons.IH findIndex_ge [of P xs] by (auto simp: Let_def)
qed

lemma findIndex_found: "findIndex P xs > - 1 \<longleftrightarrow> list_ex P xs"
  using findIndex_none [of P xs] findIndex_ge [of P xs] by linarith

lemma splice1_findIndex:
  "list_ex P xs \<Longrightarrow> splice1 (findIndex P xs) xs = remove_first P xs"
proof (induction xs)
  case Nil
  then show ?case by simp
next
  case (Cons x xs)
  show ?case
  proof (cases "P x")
    case True
    then show ?thesis by (simp add: splice1_def)
  next
    case False
    then have ex: "list_ex P xs" using Cons.prems by simp
    then have nn: "findIndex P xs \<noteq> - 1" "0 \<le> findIndex P xs"
      using findIndex_none [of P xs] findIndex_ge [of P xs] by auto
    have "nat (findIndex P xs + 1) = Suc (nat (findIndex P xs))"
      using nn(2) by simp
    then show ?thesis
      using False nn Cons.IH [OF ex] by (simp add: splice1_def Let_def)
  qed
qed

lemma length_remove_first:
  "list_ex P xs \<Longrightarrow> length (remove_first P xs) + 1 = length xs"
  by (induction xs) auto

lemma filter_remove_first:
  "filter P (remove_first P xs) = tl (filter P xs)"
  by (induction xs) auto

lemma filter_not_remove_first:
  "filter (\<lambda>x. \<not> P x) (remove_first P xs) = filter (\<lambda>x. \<not> P x) xs"
  by (induction xs) auto

lemma remove_first_append_new:
  "\<not> list_ex P xs \<Longrightarrow> P y \<Longrightarrow> remove_first P (xs @ [y]) = xs"
  by (induction xs) auto

lemma list_ex_filter: "list_ex P xs \<longleftrightarrow> filter P xs \<noteq> []"
  by (induction xs) auto

lemma single_removed:
  "length (filter P xs) \<le> 1 \<Longrightarrow> \<not> list_ex P (remove_first P xs)"
  by (cases "filter P xs") (auto simp: list_ex_filter filter_remove_first)

lemma find_store_issue: "find (\<lambda>j. issue_id j = issue_id i) (store_issue i coll) = Some i"
proof -
  have a: "find (\<lambda>j. issue_id j = issue_id i) (coll @ [i]) = Some i"
    if "\<not> list_ex (\<lambda>j. issue_id j = issue_id i) coll"
    using that by (induction coll) auto
  have b: "find (\<lambda>j. issue_id j = issue_id i)
             (map (\<lambda>j. if issue_id j = issue_id i then i else j) coll) = Some i"
    if "list_ex (\<lambda>j. issue_id j = issue_id i) coll"
    using that by (induction coll) auto
  show ?thesis using a b by (simp add: store_issue_def)
qed

lemma find_issue_id: "find (\<lambda>j. issue_id j = k) coll = Some i \<Longrightarrow> issue_id i = k"
  by (induction coll) (auto split: if_splits)

lemma validate_issue_upvotes [simp]: "validate_issue (i\<lparr>upvotes := ups\<rparr>) = validate_issue i"
  by (simp add: validate_issue_def)

lemma upvote_handler_found:
  assumes "find (\<lambda>j. issue_id j = k) (issues st) = Some i" "validate_issue i"
  shows "upvote_handler now u (ObjectId k) st =
     (if isUpvoted (user_id u) i
      then (\<lparr>res_code = 200, res_message = ''Upvote removed'',
             res_upvoteCount = Some (length (upvotes i) - 1), res_isUpvoted = Some False\<rparr>,
            st\<lparr>issues := store_issue
                 (i\<lparr>upvotes := remove_first (\<lambda>v. upvote_user v = user_id u) (upvotes i)\<rparr>)
                 (issues st)\<rparr>)
      else (\<lparr>res_code = 200, res_message = ''Issue upvoted'',
             res_upvoteCount = Some (length (upvotes i) + 1), res_isUpvoted = Some True\<rparr>,
            st\<lparr>users := map (\<lambda>x. if user_id x = user_id u
                                   then x\<lparr>contributionScore := contributionScore x + 1\<rparr> else x)
                             (users st),
               issues := store_issue
                 (i\<lparr>upvotes := upvotes i @ [\<lparr>upvote_user = user_id u, upvote_timestamp = now\<rparr>]\<rparr>)
                 (issues st)\<rparr>))"
proof (cases "isUpvoted (user_id u) i")
  case True
  then have ex: "list_ex (\<lambda>v. upvote_user v = user_id u) (upvotes i)"
    by (simp add: isUpvoted_def)
  have idx: "findIndex (\<lambda>v. upvote_user v = user_id u) (upvotes i) > - 1"
      "findIndex (\<lambda>v. upvote_user v = user_id u) (upvotes i) \<noteq> - 1"
    using ex findIndex_found [of "\<lambda>v. upvote_user v = user_id u" "upvotes i"] by auto
  have len: "length (remove_first (\<lambda>v. upvote_user v = user_id u) (upvotes i)) = length (upvotes i) - 1"
    using length_remove_first [OF ex] by simp
  show ?thesis
    using True assms idx
    by (simp add: upvote_handler_def findById_issue_def Let_def save_issue_def
        splice1_findIndex [OF ex] len)
next
  case False
  then have nex: "\<not> list_ex (\<lambda>v. upvote_user v = user_id u) (upvotes i)"
    by (simp add: isUpvoted_def)
  have idx: "findIndex (\<lambda>v. upvote_user v = user_id u) (upvotes i) = - 1"
    using nex findIndex_none [of "\<lambda>v. upvote_user v = user_id u" "upvotes i"] by simp
  show ?thesis
    using False assms idx
    by (simp add: upvote_handler_def findById_issue_def Let_def save_issue_def
        inc_contributionScore_def)
qed


lemma users_remove_first:
  "list_ex (\<lambda>x. f x = a) xs \<Longrightarrow>
   insert a (set (map f (remove_first (\<lambda>x. f x = a) xs))) = set (map f xs)"
  by (induction xs) auto

lemma toggle_twice:
  assumes found: "find (\<lambda>j. issue_id j = k) (issues st) = Some i"
    and valid: "validate_issue i"
    and single: "length (filter (\<lambda>v. upvote_user v = user_id u) (upvotes i)) \<le> 1"
    and c1: "upvote_handler now1 u (ObjectId k) st = (r1, st1)"
    and c2: "upvote_handler now2 u (ObjectId k) st1 = (r2, st2)"
  shows "\<exists>i1 i2.
      find (\<lambda>j. issue_id j = k) (issues st1) = Some i1
    \<and> find (\<lambda>j. issue_id j = k) (issues st2) = Some i2
    \<and> res_code r1 = 200 \<and> res_code r2 = 200
    \<and> res_isUpvoted r1 = Some (\<not> isUpvoted (user_id u) i)
    \<and> res_isUpvoted r2 = Some (isUpvoted (user_id u) i)
    \<and> res_upvoteCount r2 = Some (length (upvotes i))
    \<and> isUpvoted (user_id u) i1 = (\<not> isUpvoted (user_id u) i)
    \<and> isUpvoted (user_id u) i2 = isUpvoted (user_id u) i
    \<and> length (upvotes i2) = length (upvotes i)
    \<and> set (map upvote_user (upvotes i2)) = set (map upvote_user (upvotes i))
    \<and> upvotes i1 =
        (if isUpvoted (user_id u) i
         then remove_first (\<lambda>v. upvote_user v = user_id u) (upvotes i)
         else upvotes i @ [\<lparr>upvote_user = user_id u, upvote_timestamp = now1\<rparr>])
    \<and> users st1 =
        (if isUpvoted (user_id u) i then users st
         else map (\<lambda>x. if user_id x = user_id u
                        then x\<lparr>contributionScore := contributionScore x + 1\<rparr> else x) (users st))
    \<and> users st2 =
        map (\<lambda>x. if user_id x = user_id u
                  then x\<lparr>contributionScore := contributionScore x + 1\<rparr> else x) (users st)
    \<and> (\<not> isUpvoted (user_id u) i \<longrightarrow> i2 = i)"
proof -
  let ?P = "\<lambda>v. upvote_user v = user_id u"
  have k: "issue_id i = k" using found by (rule find_issue_id)
  show ?thesis
  proof (cases "isUpvoted (user_id u) i")
    case True
    then have ex: "list_ex ?P (upvotes i)" by (simp add: isUpvoted_def)
    define i1 where "i1 = i\<lparr>upvotes := remove_first ?P (upvotes i)\<rparr>"
    have r1: "r1 = \<lparr>res_code = 200, res_message = ''Upvote removed'',
                    res_upvoteCount = Some (length (upvotes i) - 1), res_isUpvoted = Some False\<rparr>"
      and st1: "st1 = st\<lparr>issues := store_issue i1 (issues st)\<rparr>"
      using c1 True by (simp_all add: upvote_handler_found [OF found valid] i1_def)
    have id1: "issue_id i1 = k" using k by (simp add: i1_def)
    have found1: "find (\<lambda>j. issue_id j = k) (issues st1) = Some i1"
      using find_store_issue [of i1 "issues st"] id1 by (simp add: st1)
    have valid1: "validate_issue i1" using valid by (simp add: i1_def)
    have not1: "\<not> isUpvoted (user_id u) i1"
      using single_removed [of ?P "upvotes i"] single by (simp add: isUpvoted_def i1_def)
    define i2 where
      "i2 = i1\<lparr>upvotes := upvotes i1 @ [\<lparr>upvote_user = user_id u, upvote_timestamp = now2\<rparr>]\<rparr>"
    have r2: "r2 = \<lparr>res_code = 200, res_message = ''Issue upvoted'',
                    res_upvoteCount = Some (length (upvotes i1) + 1), res_isUpvoted = Some True\<rparr>"
      and st2: "st2 = st1\<lparr>users := map (\<lambda>x. if user_id x = user_id u
                                   then x\<lparr>contributionScore := contributionScore x + 1\<rparr> else x)
                             (users st1),
                           issues := store_issue i2 (issues st1)\<rparr>"
      using c2 not1 by (simp_all add: upvote_handler_found [OF found1 valid1] i2_def)
    have id2: "issue_id i2 = k" using id1 by (simp add: i2_def)
    have found2: "find (\<lambda>j. issue_id j = k) (issues st2) = Some i2"
      using find_store_issue [of i2 "issues st1"] id2 by (simp add: st2)
    have len1: "length (upvotes i1) + 1 = length (upvotes i)"
      using length_remove_first [OF ex] by (simp add: i1_def)
    have set2: "set (map upvote_user (upvotes i2)) = set (map upvote_user (upvotes i))"
      using users_remove_first [of upvote_user "user_id u" "upvotes i"] ex
      by (simp add: i2_def i1_def)
    have up2: "isUpvoted (user_id u) i2" by (simp add: isUpvoted_def i2_def)
    have len2: "length (upvotes i2) = length (upvotes i)" using len1 by (simp add: i2_def)
    have u1: "upvotes i1 = remove_first ?P (upvotes i)" by (simp add: i1_def)
    have us1: "users st1 = users st" by (simp add: st1)
    have us2: "users st2 = map (\<lambda>x. if user_id x = user_id u
                  then x\<lparr>contributionScore := contributionScore x + 1\<rparr> else x) (users st)"
      by (simp add: st2 st1)
    show ?thesis
      using True found1 found2 not1 up2 len1 len2 set2 u1 us1 us2
      by (intro exI [of _ i1] exI [of _ i2]) (simp add: r1 r2)
  next
    case False
    then have nex: "\<not> list_ex ?P (upvotes i)" by (simp add: isUpvoted_def)
    define i1 where
      "i1 = i\<lparr>upvotes := upvotes i @ [\<lparr>upvote_user = user_id u, upvote_timestamp = now1\<rparr>]\<rparr>"
    have r1: "r1 = \<lparr>res_code = 200, res_message = ''Issue upvoted'',
                    res_upvoteCount = Some (length (upvotes i) + 1), res_isUpvoted = Some True\<rparr>"
      and st1: "st1 = st\<lparr>users := map (\<lambda>x. if user_id x = user_id u
                                   then x\<lparr>contributionScore := contributionScore x + 1\<rparr> else x)
                             (users st),
                          issues := store_issue i1 (issues st)\<rparr>"
      using c1 False by (simp_all add: upvote_handler_found [OF found valid] i1_def)
    have id1: "issue_id i1 = k" using k by (simp add: i1_def)
    have found1: "find (\<lambda>j. issue_id j = k) (issues st1) = Some i1"
      using find_store_issue [of i1 "issues st"] id1 by (simp add: st1)
    have valid1: "validate_issue i1" using valid by (simp add: i1_def)
    have up1: "isUpvoted (user_id u) i1" by (simp add: isUpvoted_def i1_def)
    have restored: "i1\<lparr>upvotes := remove_first ?P (upvotes i1)\<rparr> = i"
      using remove_first_append_new [of ?P "upvotes i"
          "\<lparr>upvote_user = user_id u, upvote_timestamp = now1\<rparr>"] nex
      by (simp add: i1_def)
    have r2: "r2 = \<lparr>res_code = 200, res_message = ''Upvote removed'',
                    res_upvoteCount = Some (length (upvotes i1) - 1), res_isUpvoted = Some False\<rparr>"
      and st2: "st2 = st1\<lparr>issues := store_issue i (issues st1)\<rparr>"
      using c2 up1 by (simp_all add: upvote_handler_found [OF found1 valid1] restored)
    have found2: "find (\<lambda>j. issue_id j = k) (issues st2) = Some i"
      using find_store_issue [of i "issues st1"] k by (simp add: st2)
    have u1: "upvotes i1 = upvotes i @ [\<lparr>upvote_user = user_id u, upvote_timestamp = now1\<rparr>]"
      by (simp add: i1_def)
    have us1: "users st1 = map (\<lambda>x. if user_id x = user_id u
                  then x\<lparr>contributionScore := contributionScore x + 1\<rparr> else x) (users st)"
      by (simp add: st1)
    have us2: "users st2 = users st1" by (simp add: st2)
    show ?thesis
      using False found1 found2 up1 u1 us1 us2
      by (intro exI [of _ i1] exI [of _ i]) (simp add: r1 r2)
  qed
qed

lemma length_filter_remove_first_le:
  "length (filter Q (remove_first P xs)) \<le> length (filter Q xs)"
  by (induction xs) auto

text \<open>
  The toggle keeps a stored issue valid and keeps the upvotes at one per identity at most;
  a new issue has no upvote.
\<close>

lemma upvote_handler_keeps_single:
  assumes found: "find (\<lambda>j. issue_id j = k) (issues st) = Some i"
    and valid: "validate_issue i"
    and single: "\<And>w. length (filter (\<lambda>v. upvote_user v = w) (upvotes i)) \<le> 1"
  shows "\<exists>i1. find (\<lambda>j. issue_id j = k)
                 (issues (snd (upvote_handler now u (ObjectId k) st))) = Some i1
              \<and> validate_issue i1
              \<and> (\<forall>w. length (filter (\<lambda>v. upvote_user v = w) (upvotes i1)) \<le> 1)"
proof -
  let ?P = "\<lambda>v. upvote_user v = user_id u"
  have k: "issue_id i = k" using found by (rule find_issue_id)
  show ?thesis
  proof (cases "isUpvoted (user_id u) i")
    case True
    define i1 where "i1 = i\<lparr>upvotes := remove_first ?P (upvotes i)\<rparr>"
    have st1: "issues (snd (upvote_handler now u (ObjectId k) st)) = store_issue i1 (issues st)"
      using True by (simp add: upvote_handler_found [OF found valid] i1_def)
    have f: "find (\<lambda>j. issue_id j = k) (store_issue i1 (issues st)) = Some i1"
      using find_store_issue [of i1 "issues st"] k by (simp add: i1_def)
    have s: "length (filter (\<lambda>v. upvote_user v = w) (upvotes i1)) \<le> 1" for w
      using single [of w]
        length_filter_remove_first_le [of "\<lambda>v. upvote_user v = w" ?P "upvotes i"]
      by (simp add: i1_def)
    show ?thesis
      using f s valid by (intro exI [of _ i1]) (simp add: st1 i1_def)
  next
    case False
    then have none: "filter ?P (upvotes i) = []"
      by (simp add: isUpvoted_def list_ex_filter)
    define i1 where
      "i1 = i\<lparr>upvotes := upvotes i @ [\<lparr>upvote_user = user_id u, upvote_timestamp = now\<rparr>]\<rparr>"
    have st1: "issues (snd (upvote_handler now u (ObjectId k) st)) = store_issue i1 (issues st)"
      using False by (simp add: upvote_handler_found [OF found valid] i1_def)
    have f: "find (\<lambda>j. issue_id j = k) (store_issue i1 (issues st)) = Some i1"
      using find_store_issue [of i1 "issues st"] k by (simp add: i1_def)
    have s: "length (filter (\<lambda>v. upvote_user v = w) (upvotes i1)) \<le> 1" for w
      using single [of w] none by (cases "w = user_id u") (auto simp: i1_def)
    show ?thesis
      using f s valid by (intro exI [of _ i1]) (simp add: st1 i1_def)
  qed
qed

text \<open>
  C8. For an issue in the store on which the identity holds at most one upvote (so it is
  for every issue the routes produce: a new issue has none, and the toggle keeps at most
  one per identity), two successive calls of the upvote toggle by the identity both answer
  200 and bring the upvotes back: the count after the second call, also as the response
  reports it, is the initial count, \<open>isUpvoted\<close> for the identity has its initial value,
  and the identities that have upvoted are the same; when the identity had not upvoted, the
  stored document is the initial one. The first call adds the identity's upvote when it
  was absent and removes it (by \<open>findIndex\<close> and \<open>splice\<close>) when it was present.
\<close>

theorem upvote_toggle_round_trip:
  assumes "find (\<lambda>j. issue_id j = k) (issues st) = Some i"
    and "validate_issue i"
    and "length (filter (\<lambda>v. upvote_user v = user_id u) (upvotes i)) \<le> 1"
    and "upvote_handler now1 u (ObjectId k) st = (r1, st1)"
    and "upvote_handler now2 u (ObjectId k) st1 = (r2, st2)"
  shows "\<exists>i1 i2.
      find (\<lambda>j. issue_id j = k) (issues st1) = Some i1
    \<and> find (\<lambda>j. issue_id j = k) (issues st2) = Some i2
    \<and> res_code r1 = 200 \<and> res_code r2 = 200
    \<and> length (upvotes i2) = length (upvotes i)
    \<and> res_upvoteCount r2 = Some (length (upvotes i))
    \<and> isUpvoted (user_id u) i2 = isUpvoted (user_id u) i
    \<and> res_isUpvoted r2 = Some (isUpvoted (user_id u) i)
    \<and> set (map upvote_user (upvotes i2)) = set (map upvote_user (upvotes i))
    \<and> isUpvoted (user_id u) i1 = (\<not> isUpvoted (user_id u) i)
    \<and> res_isUpvoted r1 = Some (\<not> isUpvoted (user_id u) i)
    \<and> upvotes i1 =
        (if isUpvoted (user_id u) i
         then splice1 (findIndex (\<lambda>v. upvote_user v = user_id u) (upvotes i)) (upvotes i)
         else upvotes i @ [\<lparr>upvote_user = user_id u, upvote_timestamp = now1\<rparr>])
    \<and> (\<not> isUpvoted (user_id u) i \<longrightarrow> i2 = i)"
proof -
  obtain i1 i2 where t:
    "find (\<lambda>j. issue_id j = k) (issues st1) = Some i1"
    "find (\<lambda>j. issue_id j = k) (issues st2) = Some i2"
    "res_code r1 = 200" "res_code r2 = 200"
    "res_isUpvoted r1 = Some (\<not> isUpvoted (user_id u) i)"
    "res_isUpvoted r2 = Some (isUpvoted (user_id u) i)"
    "res_upvoteCount r2 = Some (length (upvotes i))"
    "isUpvoted (user_id u) i1 = (\<not> isUpvoted (user_id u) i)"
    "isUpvoted (user_id u) i2 = isUpvoted (user_id u) i"
    "length (upvotes i2) = length (upvotes i)"
    "set (map upvote_user (upvotes i2)) = set (map upvote_user (upvotes i))"
    "upvotes i1 =
        (if isUpvoted (user_id u) i
         then remove_first (\<lambda>v. upvote_user v = user_id u) (upvotes i)
         else upvotes i @ [\<lparr>upvote_user = user_id u, upvote_timestamp = now1\<rparr>])"
    "\<not> isUpvoted (user_id u) i \<longrightarrow> i2 = i"
    using toggle_twice [OF assms] by blast
  have "isUpvoted (user_id u) i \<Longrightarrow>
        splice1 (findIndex (\<lambda>v. upvote_user v = user_id u) (upvotes i)) (upvotes i) =
        remove_first (\<lambda>v. upvote_user v = user_id u) (upvotes i)"
    by (simp add: isUpvoted_def splice1_findIndex)
  then have "upvotes i1 =
        (if isUpvoted (user_id u) i
         then splice1 (findIndex (\<lambda>v. upvote_user v = user_id u) (upvotes i)) (upvotes i)
         else upvotes i @ [\<lparr>upvote_user = user_id u, upvote_timestamp = now1\<rparr>])"
    using t(12) by simp
  then show ?thesis
    using t(1-11) t(13) by (intro exI [of _ i1] exI [of _ i2]) simp
qed

text \<open>The citizen toggles twice on the sample issue, which nobody has upvoted.\<close>

theorem upvote_toggle_round_trip_witness:
  "res_upvoteCount (fst (upvote_handler 2 citizen (ObjectId ''i1'')
                          (snd (upvote_handler 1 citizen (ObjectId ''i1'') town)))) = Some 0
   \<and> res_isUpvoted (fst (upvote_handler 2 citizen (ObjectId ''i1'')
                          (snd (upvote_handler 1 citizen (ObjectId ''i1'') town)))) = Some False
   \<and> res_isUpvoted (fst (upvote_handler 1 citizen (ObjectId ''i1'') town)) = Some True"
proof -
  have h1: "find (\<lambda>j. issue_id j = ''i1'') (issues town) = Some pothole"
    by (simp add: town_def pothole_def)
  have h2: "validate_issue pothole"
    by (simp add: validate_issue_def pothole_def status_enum_def timeline_action_enum_def)
  have h3: "length (filter (\<lambda>v. upvote_user v = user_id citizen) (upvotes pothole)) \<le> 1"
    by (simp add: pothole_def)
  have up: "\<not> isUpvoted (user_id citizen) pothole"
    by (simp add: isUpvoted_def pothole_def)
  have e1: "upvote_handler 1 citizen (ObjectId ''i1'') town =
      (fst (upvote_handler 1 citizen (ObjectId ''i1'') town),
       snd (upvote_handler 1 citizen (ObjectId ''i1'') town))"
    by simp
  have e2: "upvote_handler 2 citizen (ObjectId ''i1'')
              (snd (upvote_handler 1 citizen (ObjectId ''i1'') town)) =
      (fst (upvote_handler 2 citizen (ObjectId ''i1'')
              (snd (upvote_handler 1 citizen (ObjectId ''i1'') town))),
       snd (upvote_handler 2 citizen (ObjectId ''i1'')
              (snd (upvote_handler 1 citizen (ObjectId ''i1'') town))))"
    by simp
  have "res_upvoteCount (fst (upvote_handler 2 citizen (ObjectId ''i1'')
                          (snd (upvote_handler 1 citizen (ObjectId ''i1'') town)))) =
          Some (length (upvotes pothole))
      \<and> res_isUpvoted (fst (upvote_handler 2 citizen (ObjectId ''i1'')
                          (snd (upvote_handler 1 citizen (ObjectId ''i1'') town)))) =
          Some (isUpvoted (user_id citizen) pothole)
      \<and> res_isUpvoted (fst (upvote_handler 1 citizen (ObjectId ''i1'') town)) =
          Some (\<not> isUpvoted (user_id citizen) pothole)"
    using upvote_toggle_round_trip [OF h1 h2 h3 e1 e2] by blast
  then show ?thesis
    using up by (simp add: pothole_def)
qed

text \<open>
  C9. Under the same conditions the two calls leave the upvotes of the issue as they were
  (same count, same identities; the very same document when the identity had not upvoted,
  and otherwise its upvote re-created at the end of the list) but not the user: the call that adds the upvote increments
  the voter's \<open>contributionScore\<close> by 1, the call that removes it changes no user, so
  after the two calls the voter's score is 1 higher than before and no other user changed.
\<close>

theorem upvote_toggle_keeps_score:
  assumes "find (\<lambda>j. issue_id j = k) (issues st) = Some i"
    and "validate_issue i"
    and "length (filter (\<lambda>v. upvote_user v = user_id u) (upvotes i)) \<le> 1"
    and "upvote_handler now1 u (ObjectId k) st = (r1, st1)"
    and "upvote_handler now2 u (ObjectId k) st1 = (r2, st2)"
  shows "\<exists>i2.
      find (\<lambda>j. issue_id j = k) (issues st2) = Some i2
    \<and> length (upvotes i2) = length (upvotes i)
    \<and> set (map upvote_user (upvotes i2)) = set (map upvote_user (upvotes i))
    \<and> users st1 =
        (if isUpvoted (user_id u) i then users st
         else users (inc_contributionScore (user_id u) 1 st))
    \<and> users st2 =
        (if isUpvoted (user_id u) i then users (inc_contributionScore (user_id u) 1 st1)
         else users st1)
    \<and> users st2 = users (inc_contributionScore (user_id u) 1 st)
    \<and> map contributionScore (filter (\<lambda>x. user_id x = user_id u) (users st2)) =
        map (\<lambda>x. contributionScore x + 1) (filter (\<lambda>x. user_id x = user_id u) (users st))
    \<and> filter (\<lambda>x. user_id x \<noteq> user_id u) (users st2) =
        filter (\<lambda>x. user_id x \<noteq> user_id u) (users st)
    \<and> (\<not> isUpvoted (user_id u) i \<longrightarrow> i2 = i)"
proof -
  let ?inc = "map (\<lambda>x. if user_id x = user_id u
                        then x\<lparr>contributionScore := contributionScore x + 1\<rparr> else x)"
  obtain i1 i2 where t:
    "find (\<lambda>j. issue_id j = k) (issues st2) = Some i2"
    "length (upvotes i2) = length (upvotes i)"
    "set (map upvote_user (upvotes i2)) = set (map upvote_user (upvotes i))"
    "users st1 = (if isUpvoted (user_id u) i then users st else ?inc (users st))"
    "users st2 = ?inc (users st)"
    "\<not> isUpvoted (user_id u) i \<longrightarrow> i2 = i"
    using toggle_twice [OF assms] by blast
  have score: "map contributionScore (filter (\<lambda>x. user_id x = user_id u) (?inc us)) =
        map (\<lambda>x. contributionScore x + 1) (filter (\<lambda>x. user_id x = user_id u) us)" for us
    by (induction us) auto
  have others: "filter (\<lambda>x. user_id x \<noteq> user_id u) (?inc us) =
        filter (\<lambda>x. user_id x \<noteq> user_id u) us" for us
    by (induction us) auto
  show ?thesis
    using t score [of "users st"] others [of "users st"]
    by (intro exI [of _ i2]) (simp add: inc_contributionScore_def)
qed

text \<open>The citizen's two toggles on the sample issue: score 0 before, 1 after.\<close>

theorem upvote_toggle_keeps_score_witness:
  "map contributionScore
     (filter (\<lambda>x. user_id x = ''c1'')
        (users (snd (upvote_handler 2 citizen (ObjectId ''i1'')
                       (snd (upvote_handler 1 citizen (ObjectId ''i1'') town)))))) = [1]
   \<and> map contributionScore (filter (\<lambda>x. user_id x = ''c1'') (users town)) = [0]"
proof -
  have h1: "find (\<lambda>j. issue_id j = ''i1'') (issues town) = Some pothole"
    by (simp add: town_def pothole_def)
  have h2: "validate_issue pothole"
    by (simp add: validate_issue_def pothole_def status_enum_def timeline_action_enum_def)
  have h3: "length (filter (\<lambda>v. upvote_user v = user_id citizen) (upvotes pothole)) \<le> 1"
    by (simp add: pothole_def)
  have c: "user_id citizen = ''c1''" by (simp add: citizen_def mk_user_def)
  have before: "filter (\<lambda>x. user_id x = ''c1'') (users town) = [citizen]"
    by (simp add: town_def admin_user_def roads_head_def roads_officer_def roads_officer2_def
        water_head_def citizen_def former_officer_def mk_user_def)
  have score: "contributionScore citizen = 0" by (simp add: citizen_def mk_user_def)
  have e1: "upvote_handler 1 citizen (ObjectId ''i1'') town =
      (fst (upvote_handler 1 citizen (ObjectId ''i1'') town),
       snd (upvote_handler 1 citizen (ObjectId ''i1'') town))"
    by simp
  have e2: "upvote_handler 2 citizen (ObjectId ''i1'')
              (snd (upvote_handler 1 citizen (ObjectId ''i1'') town)) =
      (fst (upvote_handler 2 citizen (ObjectId ''i1'')
              (snd (upvote_handler 1 citizen (ObjectId ''i1'') town))),
       snd (upvote_handler 2 citizen (ObjectId ''i1'')
              (snd (upvote_handler 1 citizen (ObjectId ''i1'') town))))"
    by simp
  have "map contributionScore
          (filter (\<lambda>x. user_id x = user_id citizen)
             (users (snd (upvote_handler 2 citizen (ObjectId ''i1'')
                            (snd (upvote_handler 1 citizen (ObjectId ''i1'') town)))))) =
        map (\<lambda>x. contributionScore x + 1)
          (filter (\<lambda>x. user_id x = user_id citizen) (users town))"
    using upvote_toggle_keeps_score [OF h1 h2 h3 e1 e2] by blast
  then show ?thesis
    by (simp add: c before score)
qed

section \<open>Status transitions through PATCH /:id/status\<close>

lemma validate_updateStatus:
  "validate_issue (updateStatus now s by notes i) \<longleftrightarrow>
     s \<in> set status_enum \<and> s \<in> set timeline_action_enum \<and>
     list_all (\<lambda>e. action e \<in> set timeline_action_enum) (timeline i)"
  by (auto simp: validate_issue_def timeline_updateStatus updateStatus_fields)

lemma validate_issue_estimated [simp]:
  "validate_issue (i\<lparr>estimatedResolutionTime := t\<rparr>) = validate_issue i"
  by (simp add: validate_issue_def)

lemma submitted_not_an_action: "''submitted'' \<notin> set timeline_action_enum"
  by (simp add: timeline_action_enum_def)

lemma createNotification_keeps:
  "issues (snd (createNotification persist n st)) = issues st"
  "users (snd (createNotification persist n st)) = users st"
  by (simp_all add: createNotification_def)

lemma patch_status_handler_submitted:
  assumes "find (\<lambda>j. issue_id j = k) (issues st) = Some i"
    and "role u = ''admin'' \<or> department u = category i"
    and "b_status b = ''submitted''" and "status_body_valid b"
  shows "patch_status_handler persist now u (ObjectId k) b st =
           (respond 500 ''Failed to update issue status'', st)"
proof -
  have inv: "\<not> validate_issue (updateStatus now ''submitted'' (user_id u)
                 (case b_notes b of None \<Rightarrow> [] | Some n \<Rightarrow> n) i)"
    using submitted_not_an_action by (simp add: validate_updateStatus)
  show ?thesis
    using assms inv
    by (auto simp: patch_status_handler_def findById_issue_def Let_def save_issue_def
        split: option.splits)
qed


text \<open>No request to the route is answered 200: the populate chain comes before it.\<close>

lemma patch_status_never_answers_200:
  "res_code (fst (patch_status persist now req_user idp b st)) \<noteq> 200"
  by (auto simp: patch_status_def patch_status_handler_def authorize_def findById_issue_def
      Let_def save_issue_def createNotification_def populate_chain_def respond_def
      split: option.splits sum.splits id_param.splits)

text \<open>
  C1 fails on the code for the target status 'submitted'. The route's validator and the
  \<open>status\<close> enumeration admit it, but \<open>updateStatus\<close> writes the new status as the
  \<open>action\<close> of the timeline entry, and the enumeration of \<open>timeline.action\<close> has no
  'submitted': \<open>save()\<close> rejects the document and the handler answers 500, leaving the
  store as it was. This holds for every stored issue (every current status) and every
  authorized actor.
\<close>

theorem transition_to_submitted_fails:
  assumes "find (\<lambda>j. issue_id j = k) (issues st) = Some i"
    and "role u = ''admin'' \<or>
         (role u \<in> {''department_head'', ''field_officer''} \<and> department u = category i)"
    and "b_status b = ''submitted''" and "status_body_valid b"
  shows "patch_status persist now (Some u) (ObjectId k) b st =
           (respond 500 ''Failed to update issue status'', st)"
proof -
  have gate: "authorize [''admin'', ''department_head'', ''field_officer''] (Some u) = None"
    using assms(2) by (auto simp: authorize_def)
  have "role u = ''admin'' \<or> department u = category i" using assms(2) by auto
  then show ?thesis
    using patch_status_handler_submitted [OF assms(1) _ assms(3,4), of u persist now] gate
    by (simp add: patch_status_def)
qed

text \<open>The administrator sends the sample issue back to 'submitted'.\<close>

theorem transition_to_submitted_fails_witness:
  "patch_status (\<lambda>n. True) 5 (Some admin_user) (ObjectId ''i1'') (status_request ''submitted'') town =
     (respond 500 ''Failed to update issue status'', town)"
proof -
  have h1: "find (\<lambda>j. issue_id j = ''i1'') (issues town) = Some pothole"
    by (simp add: town_def pothole_def)
  have h2: "role admin_user = ''admin'' \<or>
            (role admin_user \<in> {''department_head'', ''field_officer''}
             \<and> department admin_user = category pothole)"
    by (simp add: admin_user_def mk_user_def)
  have h3: "b_status (status_request ''submitted'') = ''submitted''"
    by (simp add: status_request_def)
  have h4: "status_body_valid (status_request ''submitted'')"
    by (simp add: status_request_def status_body_valid_def)
  show ?thesis
    using transition_to_submitted_fails [OF h1 h2 h3 h4] by simp
qed






section \<open>The notification fan-out of POST /\<close>

lemma create_all_results:
  "fst (create_all persist ns st) = map (\<lambda>n. if persist n then Inr n else Inl PersistError) ns"
  by (induction ns arbitrary: st) (simp_all add: createNotification_def case_prod_beta Let_def)

lemma create_all_notifications:
  "notifications (snd (create_all persist ns st)) = notifications st @ filter persist ns"
  by (induction ns arbitrary: st) (simp_all add: createNotification_def case_prod_beta Let_def)

lemma promise_all_results:
  "promise_all (map (\<lambda>n. if persist n then Inr n else Inl PersistError) ns) =
     (if list_all persist ns then Inr ns else Inl PersistError)"
  by (induction ns) auto

text \<open>
  What the fan-out itself would do with a list of recipients: the records the datastore
  accepts are created whatever happens to the others, and \<open>Promise.all\<close> rejects as soon
  as one is not accepted; no result per recipient is kept.
\<close>

lemma fan_out_awaited_together:
  "notifications (snd (create_all persist ns st)) = notifications st @ filter persist ns
   \<and> promise_all (fst (create_all persist ns st)) =
       (if list_all persist ns then Inr ns else Inl PersistError)"
  by (simp only: create_all_results create_all_notifications promise_all_results)

text \<open>
  C3 fails on the code: the handler of POST / never reaches the fan-out. The new document
  carries no \<open>trackingId\<close> when it is saved, so \<open>issue.save()\<close> rejects it; and
  \<open>User\<close>, from which the recipients are queried, is not bound in routes/issues.js.
  Every request with a body that passes the validators is answered 500 'Failed to create
  issue' and every other one 400; no request creates a Notification record, stores an
  issue or changes the state, whatever the datastore would do with the records: there are
  no records for the other recipients and no report of successes or errors.
\<close>

theorem create_issue_creates_no_notification:
  "snd (create_issue_handler persist now new_id uploads_ok req_user b st) = st
   \<and> res_code (fst (create_issue_handler persist now new_id uploads_ok req_user b st)) =
       (if create_body_valid b then 500 else 400)"
  by (simp add: create_issue_handler_def save_new_issue_def Let_def respond_def)

text \<open>
  The citizen reports a pothole in the sample town, which has three active roads staff;
  the datastore would reject one of the three notifications.
\<close>

theorem create_issue_creates_no_notification_witness:
  "create_issue_handler rejects_o1 5 ''i2'' True citizen pothole_report town =
     (respond 500 ''Failed to create issue'', town)"
proof -
  have v: "create_body_valid pothole_report"
    by (simp add: create_body_valid_def pothole_report_def)
  have m: "res_message (fst (create_issue_handler rejects_o1 5 ''i2'' True citizen
                               pothole_report town)) = ''Failed to create issue''"
    using v by (simp add: create_issue_handler_def save_new_issue_def Let_def respond_def)
  have "snd (create_issue_handler rejects_o1 5 ''i2'' True citizen pothole_report town) = town
      \<and> res_code (fst (create_issue_handler rejects_o1 5 ''i2'' True citizen
                         pothole_report town)) = 500"
    using create_issue_creates_no_notification
      [of rejects_o1 5 "''i2''" True citizen pothole_report town] v
    by simp
  then show ?thesis
    using v by (simp add: create_issue_handler_def save_new_issue_def Let_def prod_eq_iff)
qed

section \<open>Connections\<close>

lemma socket_auth_refuses:
  assumes "handshake_token h = None \<or> handshake_token h = Some []
     \<or> (\<exists>t. handshake_token h = Some t
           \<and> (jwt_verify t = JsonWebTokenError \<or> jwt_verify t = TokenExpiredError
              \<or> (\<exists>idopt. jwt_verify t = Decoded idopt
                    \<and> (findById_user us idopt = None
                       \<or> (\<exists>usr. findById_user us idopt = Some usr \<and> \<not> isActive usr)))))"
  shows "\<exists>err. socket_auth jwt_verify us h = Inl err"
  using assms by (auto simp: socket_auth_def split: option.splits jwt_result.splits)

lemma rooms_of_absent: "sid \<notin> sock_id ` set srv \<Longrightarrow> rooms_of sid srv = []"
  by (induction srv) (auto simp: rooms_of_def)

text \<open>
  C5. A connection attempt whose token is missing (absent or empty), does not verify, has
  expired, or names no user or an inactive one, is refused by the authentication
  middleware with an error; the server is left as it was, so the \<open>connection\<close> handler,
  which alone joins the identity, role and department rooms, has not run: the socket is in
  no room, and \<open>getConnectedUsers\<close> returns what it returned before the attempt.
\<close>

theorem refused_connection_joins_no_room:
  assumes "handshake_token h = None \<or> handshake_token h = Some []
     \<or> (\<exists>t. handshake_token h = Some t
           \<and> (jwt_verify t = JsonWebTokenError \<or> jwt_verify t = TokenExpiredError
              \<or> (\<exists>idopt. jwt_verify t = Decoded idopt
                    \<and> (findById_user us idopt = None
                       \<or> (\<exists>usr. findById_user us idopt = Some usr \<and> \<not> isActive usr)))))"
    and "sid \<notin> sock_id ` set srv"
  shows "\<exists>err. socket_auth jwt_verify us h = Inl err
         \<and> connect jwt_verify us sid h srv = (Inl err, srv)
         \<and> rooms_of sid (snd (connect jwt_verify us sid h srv)) = []
         \<and> sid \<notin> sock_id ` set (snd (connect jwt_verify us sid h srv))
         \<and> getConnectedUsers now (Some (snd (connect jwt_verify us sid h srv))) =
             getConnectedUsers now (Some srv)"
proof -
  obtain err where e: "socket_auth jwt_verify us h = Inl err"
    using socket_auth_refuses [OF assms(1)] by blast
  have c: "connect jwt_verify us sid h srv = (Inl err, srv)"
    by (simp add: connect_def e)
  show ?thesis
    using e c assms(2) rooms_of_absent [OF assms(2)] by simp
qed

text \<open>
  An expired token presented to a server on which the head of the roads department is
  connected: refused, and the enumeration still lists the one user.
\<close>

theorem refused_connection_joins_no_room_witness:
  "connect sample_verify (users town) ''s2'' \<lparr>auth_token = Some ''old'', authorization = None\<rparr>
     (snd (connect sample_verify (users town) ''s1''
             \<lparr>auth_token = None, authorization = Some ''Bearer good''\<rparr> [])) =
     (Inl ''Authentication failed'',
      snd (connect sample_verify (users town) ''s1''
             \<lparr>auth_token = None, authorization = Some ''Bearer good''\<rparr> []))
   \<and> map cu_id (getConnectedUsers 0
        (Some (snd (connect sample_verify (users town) ''s2''
                 \<lparr>auth_token = Some ''old'', authorization = None\<rparr>
                 (snd (connect sample_verify (users town) ''s1''
                    \<lparr>auth_token = None, authorization = Some ''Bearer good''\<rparr> [])))))) =
       [Some ''h1'']"
proof -
  let ?srv = "snd (connect sample_verify (users town) ''s1''
                     \<lparr>auth_token = None, authorization = Some ''Bearer good''\<rparr> [])"
  let ?h = "\<lparr>auth_token = Some ''old'', authorization = None\<rparr>"
  have srv: "?srv =
      [\<lparr>sock_id = ''s1'', sock_userId = Some ''h1'', sock_user = Some roads_head,
        rooms = [''s1'', ''user_h1'', ''role_department_head'', ''dept_roads''],
        connectedAt = None, received = []\<rparr>]"
    by (simp add: connect_def socket_auth_def handshake_token_def sample_verify_def
        findById_user_def town_def admin_user_def roads_head_def mk_user_def
        on_connection_def socket_join_def Let_def)
  have h1: "handshake_token ?h = None \<or> handshake_token ?h = Some []
     \<or> (\<exists>t. handshake_token ?h = Some t
           \<and> (sample_verify t = JsonWebTokenError \<or> sample_verify t = TokenExpiredError
              \<or> (\<exists>idopt. sample_verify t = Decoded idopt
                    \<and> (findById_user (users town) idopt = None
                       \<or> (\<exists>usr. findById_user (users town) idopt = Some usr
                              \<and> \<not> isActive usr)))))"
    by (simp add: handshake_token_def sample_verify_def)
  have h2: "''s2'' \<notin> sock_id ` set ?srv"
    by (simp add: srv)
  have auth: "socket_auth sample_verify (users town) ?h = Inl ''Authentication failed''"
    by (simp add: socket_auth_def handshake_token_def sample_verify_def)
  have users1: "map cu_id (getConnectedUsers 0 (Some ?srv)) = [Some ''h1'']"
    by (simp add: srv getConnectedUsers_def List.map_filter_def)
  obtain err where r: "socket_auth sample_verify (users town) ?h = Inl err"
      "connect sample_verify (users town) ''s2'' ?h ?srv = (Inl err, ?srv)"
      "getConnectedUsers 0 (Some (snd (connect sample_verify (users town) ''s2'' ?h ?srv))) =
         getConnectedUsers 0 (Some ?srv)"
    using refused_connection_joins_no_room [OF h1 h2, of 0] by blast
  have "err = ''Authentication failed''" using r(1) auth by simp
  then show ?thesis
    using r(2,3) users1 by simp
qed

section \<open>The broadcaster before initialisation\<close>

lemma broadcastNotification_null_argument:
  "broadcastNotification None (Some srv) = Inl TypeError"
  by (simp add: broadcastNotification_def)

text \<open>
  C10. While the module-level \<open>io\<close> is \<open>null\<close>, each of \<open>emitToUser\<close>,
  \<open>emitToRole\<close>, \<open>emitToDepartment\<close>, \<open>emitToIssue\<close> and
  \<open>broadcastNotification\<close> returns without an error and leaves \<open>io\<close> as it is, for
  every argument (also a \<open>null\<close> notification, which raises once the server runs), and
  \<open>getConnectedUsers\<close> returns the empty list.
\<close>

theorem emit_without_server_is_noop:
  "emitToUser userId event dat None = None
   \<and> emitToRole r event dat None = None
   \<and> emitToDepartment dept event dat None = None
   \<and> emitToIssue issueId event dat None = None
   \<and> broadcastNotification n None = Inr None
   \<and> getConnectedUsers now None = []"
  by (simp add: emitToUser_def emitToRole_def emitToDepartment_def emitToIssue_def
      broadcastNotification_def getConnectedUsers_def)

theorem emit_without_server_is_noop_witness:
  "emitToUser ''h1'' ''notification'' (PText ''hello'') None = None
   \<and> broadcastNotification None None = Inr None
   \<and> getConnectedUsers 0 None = []"
  using emit_without_server_is_noop [of "''h1''" "''notification''" "PText ''hello''" "''x''"
      "''y''" "''z''" None 0]
  by simp

end
